theory Spec2Isabelle
  imports Main "HOL-Library.Word"
begin

unbundle bit_operations_syntax

section \<open>Token storage and refresh of the Pinterest MCP server (src/auth.ts)\<close>

text \<open>
  The development embeds the token store (\<open>loadTokens\<close>, \<open>saveTokens\<close>), the refresh
  call (\<open>refreshAccessToken\<close>), the public entry point \<open>getValidAccessToken\<close> and the
  authorization handshake (\<open>startOAuthFlow\<close> with \<open>waitForAuthorizationCode\<close> and
  \<open>exchangeCodeForTokens\<close>) of \<^verbatim>\<open>src/auth.ts\<close>. Everything the TypeScript reaches through
  Node is a field of an explicit \<open>world\<close> that the functions take and return: the process
  environment, the clock behind \<^verbatim>\<open>Date.now()\<close>, the credential directory and file with
  their permission bits, the token endpoint, the callback port, the browser, and the
  diagnostic stream. Exceptions are values of a sum type.

  Conventions. A JavaScript string is a \<open>string\<close>, one \<open>char\<close> per byte of its UTF-8 form;
  the credential file is the same list of bytes. A JavaScript number is a \<open>number\<close>: an
  integer (a count of seconds or of milliseconds), \<^verbatim>\<open>NaN\<close> or one of the infinities.
  Integers are exact and unbounded: fractions and the rounding of doubles beyond \<open>2^53\<close>
  are not modelled. Where a number is known to be an integer (a reading of the clock,
  an integer that came out of \<^verbatim>\<open>JSON.parse\<close>) it is an \<open>int\<close>.
\<close>

subsection \<open>JSON values\<close>

text \<open>
  \<open>JNum m e\<close> is the number \<open>m * 10^e\<close>: the parser keeps a literal such as \<^verbatim>\<open>1.5e3\<close>
  exactly (\<open>JNum 15 2\<close>) rather than rounding it to a double.
\<close>

datatype json =
    JNull
  | JBool bool
  | JNum int int
  | JStr string
  | JArr "json list"
  | JObj "(string \<times> json) list"

abbreviation DQ :: char where "DQ \<equiv> CHR 0x22"
abbreviation BSL :: char where "BSL \<equiv> CHR 0x5C"
abbreviation NL :: char where "NL \<equiv> CHR 0x0A"

subsection \<open>\<^verbatim>\<open>JSON.stringify\<close>: strings and integers\<close>

definition hex_digit :: "nat \<Rightarrow> char" where
  "hex_digit n = ''0123456789abcdef'' ! (n mod 16)"

text \<open>
  The quoting of one character (ECMAScript \<^verbatim>\<open>QuoteJSONString\<close>): the double quote and the
  backslash are escaped, the five control characters with a short form use it, every other
  character below 0x20 becomes \<^verbatim>\<open>\u00XX\<close> in lower-case hexadecimal, and everything else is
  copied.
\<close>

definition escape_char :: "char \<Rightarrow> string" where
  "escape_char c =
     (if c = DQ then [BSL, DQ]
      else if c = BSL then [BSL, BSL]
      else if c = CHR 0x08 then [BSL, CHR ''b'']
      else if c = CHR 0x09 then [BSL, CHR ''t'']
      else if c = CHR 0x0A then [BSL, CHR ''n'']
      else if c = CHR 0x0C then [BSL, CHR ''f'']
      else if c = CHR 0x0D then [BSL, CHR ''r'']
      else if (of_char c :: nat) < 32
        then [BSL, CHR ''u'', CHR ''0'', CHR ''0'',
              hex_digit (of_char c div 16), hex_digit (of_char c mod 16)]
      else [c])"

definition JSON_quote :: "string \<Rightarrow> string" where
  "JSON_quote s = DQ # concat (map escape_char s) @ [DQ]"

definition digit_char :: "nat \<Rightarrow> char" where
  "digit_char n = ''0123456789'' ! (n mod 10)"

fun show_nat :: "nat \<Rightarrow> string" where
  "show_nat n = (if n < 10 then [digit_char n] else show_nat (n div 10) @ [digit_char (n mod 10)])"

declare show_nat.simps [simp del]

text \<open>An integer in plain decimal digits.\<close>

definition show_int :: "int \<Rightarrow> string" where
  "show_int i = (if i < 0 then CHR ''-'' # show_nat (nat (- i)) else show_nat (nat i))"

text \<open>
  From \<open>10^21\<close> on \<^verbatim>\<open>Number.prototype.toString\<close> uses exponent notation: the first
  significant digit, the other significant digits after a point when there are any, and
  \<^verbatim>\<open>e+\<close> with the decimal exponent, as in \<^verbatim>\<open>1e+21\<close> and \<^verbatim>\<open>1.5e+21\<close>. The significant digits
  here are the digits of the integer without its trailing zeros.
\<close>

definition strip_zeros :: "string \<Rightarrow> string" where
  "strip_zeros ds = rev (dropWhile (\<lambda>c. c = CHR ''0'') (rev ds))"

definition show_exp :: "nat \<Rightarrow> string" where
  "show_exp n =
     (let ds = show_nat n; sig = strip_zeros ds in
      hd sig # (if tl sig = [] then [] else CHR ''.'' # tl sig) @
      ''e+'' @ show_nat (length ds - 1))"

subsection \<open>Numbers\<close>

text \<open>
  The arithmetic of \<^verbatim>\<open>+\<close> and \<^verbatim>\<open>*\<close> on numbers: \<^verbatim>\<open>NaN\<close> is absorbing, the infinities
  absorb every finite number, and \<^verbatim>\<open>Infinity - Infinity\<close> and \<^verbatim>\<open>Infinity * 0\<close> are
  \<^verbatim>\<open>NaN\<close>.
\<close>

datatype number = Finite int | NaN | Infinity | NegInfinity

fun isFinite :: "number \<Rightarrow> bool" where
  "isFinite (Finite i) = True"
| "isFinite x = False"

fun num_add :: "number \<Rightarrow> number \<Rightarrow> number" where
  "num_add (Finite a) (Finite b) = Finite (a + b)"
| "num_add NaN y = NaN"
| "num_add x NaN = NaN"
| "num_add Infinity NegInfinity = NaN"
| "num_add NegInfinity Infinity = NaN"
| "num_add Infinity y = Infinity"
| "num_add x Infinity = Infinity"
| "num_add NegInfinity y = NegInfinity"
| "num_add x NegInfinity = NegInfinity"

fun num_mul :: "number \<Rightarrow> number \<Rightarrow> number" where
  "num_mul (Finite a) (Finite b) = Finite (a * b)"
| "num_mul NaN y = NaN"
| "num_mul x NaN = NaN"
| "num_mul Infinity (Finite b) =
     (if b = 0 then NaN else if 0 < b then Infinity else NegInfinity)"
| "num_mul NegInfinity (Finite b) =
     (if b = 0 then NaN else if 0 < b then NegInfinity else Infinity)"
| "num_mul (Finite a) Infinity =
     (if a = 0 then NaN else if 0 < a then Infinity else NegInfinity)"
| "num_mul (Finite a) NegInfinity =
     (if a = 0 then NaN else if 0 < a then NegInfinity else Infinity)"
| "num_mul Infinity Infinity = Infinity"
| "num_mul NegInfinity NegInfinity = Infinity"
| "num_mul Infinity NegInfinity = NegInfinity"
| "num_mul NegInfinity Infinity = NegInfinity"

text \<open>
  \<^verbatim>\<open>JSON.stringify\<close> on a number: \<^verbatim>\<open>null\<close> for \<^verbatim>\<open>NaN\<close> and the infinities, and otherwise the
  text of \<^verbatim>\<open>Number.prototype.toString\<close>, plain digits below \<open>10^21\<close> and exponent notation
  from there.
\<close>

fun stringify_number :: "number \<Rightarrow> string" where
  "stringify_number (Finite i) =
     (if \<bar>i\<bar> < 10 ^ 21 then show_int i
      else if i < 0 then CHR ''-'' # show_exp (nat (- i))
      else show_exp (nat i))"
| "stringify_number x = ''null''"

subsection \<open>\<^verbatim>\<open>JSON.parse\<close>\<close>

definition is_ws :: "char \<Rightarrow> bool" where
  "is_ws c \<longleftrightarrow> c = CHR '' '' \<or> c = CHR 0x09 \<or> c = CHR 0x0A \<or> c = CHR 0x0D"

definition skip_ws :: "string \<Rightarrow> string" where
  "skip_ws s = dropWhile is_ws s"

definition is_digit :: "char \<Rightarrow> bool" where
  "is_digit c \<longleftrightarrow> (48::nat) \<le> of_char c \<and> (of_char c :: nat) \<le> 57"

definition digit_val :: "char \<Rightarrow> nat" where
  "digit_val c = of_char c - 48"

definition digits_val :: "string \<Rightarrow> nat" where
  "digits_val ds = foldl (\<lambda>a c. 10 * a + digit_val c) 0 ds"

definition hex_val :: "char \<Rightarrow> nat option" where
  "hex_val c =
     (let n = (of_char c :: nat) in
      if 48 \<le> n \<and> n \<le> 57 then Some (n - 48)
      else if 97 \<le> n \<and> n \<le> 102 then Some (n - 87)
      else if 65 \<le> n \<and> n \<le> 70 then Some (n - 55)
      else None)"

definition hex4 :: "char \<Rightarrow> char \<Rightarrow> char \<Rightarrow> char \<Rightarrow> nat option" where
  "hex4 a b c d =
     (case (hex_val a, hex_val b, hex_val c, hex_val d) of
        (Some x, Some y, Some z, Some u) \<Rightarrow> Some (((x * 16 + y) * 16 + z) * 16 + u)
      | _ \<Rightarrow> None)"

text \<open>
  A \<^verbatim>\<open>\uXXXX\<close> escape denotes one UTF-16 code unit; the parsed string holds the UTF-8 bytes
  of that unit (one to three bytes).
\<close>

definition utf8_unit :: "nat \<Rightarrow> string" where
  "utf8_unit n =
     (if n < 128 then [char_of n]
      else if n < 2048 then [char_of (192 + n div 64), char_of (128 + n mod 64)]
      else [char_of (224 + n div 4096), char_of (128 + (n div 64) mod 64),
            char_of (128 + n mod 64)])"

definition unescape :: "char \<Rightarrow> char option" where
  "unescape e =
     (if e = DQ then Some DQ
      else if e = BSL then Some BSL
      else if e = CHR ''/'' then Some (CHR ''/'')
      else if e = CHR ''b'' then Some (CHR 0x08)
      else if e = CHR ''f'' then Some (CHR 0x0C)
      else if e = CHR ''n'' then Some (CHR 0x0A)
      else if e = CHR ''r'' then Some (CHR 0x0D)
      else if e = CHR ''t'' then Some (CHR 0x09)
      else None)"

text \<open>
  \<open>parse_chars\<close> reads the body of a string literal, after the opening quote, up to and
  including the closing quote. An unescaped control character is a syntax error.
\<close>

fun parse_chars :: "string \<Rightarrow> (string \<times> string) option" where
  "parse_chars [] = None"
| "parse_chars (c # cs) =
     (if c = DQ then Some ([], cs)
      else if c = BSL then
        (case cs of
           [] \<Rightarrow> None
         | e # cs1 \<Rightarrow>
             if e = CHR ''u'' then
               (case cs1 of
                  h1 # h2 # h3 # h4 # cs2 \<Rightarrow>
                    (case hex4 h1 h2 h3 h4 of
                       None \<Rightarrow> None
                     | Some n \<Rightarrow>
                         (case parse_chars cs2 of
                            None \<Rightarrow> None
                          | Some (s, r) \<Rightarrow> Some (utf8_unit n @ s, r)))
                | _ \<Rightarrow> None)
             else
               (case unescape e of
                  None \<Rightarrow> None
                | Some ch \<Rightarrow>
                    (case parse_chars cs1 of
                       None \<Rightarrow> None
                     | Some (s, r) \<Rightarrow> Some (ch # s, r))))
      else if (of_char c :: nat) < 32 then None
      else
        (case parse_chars cs of
           None \<Rightarrow> None
         | Some (s, r) \<Rightarrow> Some (c # s, r)))"

text \<open>
  Numbers follow the JSON grammar: an optional minus, an integer part without a leading
  zero, an optional fraction with at least one digit, an optional exponent with at least
  one digit.
\<close>

definition parse_int_part :: "string \<Rightarrow> (string \<times> string) option" where
  "parse_int_part s =
     (case s of
        [] \<Rightarrow> None
      | c # cs \<Rightarrow>
          if c = CHR ''0'' then Some ([c], cs)
          else if is_digit c then Some (c # takeWhile is_digit cs, dropWhile is_digit cs)
          else None)"

definition parse_frac :: "string \<Rightarrow> (string \<times> string) option" where
  "parse_frac s =
     (case s of
        [] \<Rightarrow> Some ([], [])
      | c # cs \<Rightarrow>
          if c = CHR ''.'' then
            (if takeWhile is_digit cs = [] then None
             else Some (takeWhile is_digit cs, dropWhile is_digit cs))
          else Some ([], s))"

definition parse_sign :: "string \<Rightarrow> bool \<times> string" where
  "parse_sign s =
     (case s of
        [] \<Rightarrow> (False, [])
      | c # cs \<Rightarrow>
          if c = CHR ''-'' then (True, cs)
          else if c = CHR ''+'' then (False, cs)
          else (False, s))"

definition parse_exp :: "string \<Rightarrow> (int \<times> string) option" where
  "parse_exp s =
     (case s of
        [] \<Rightarrow> Some (0, [])
      | c # cs \<Rightarrow>
          if c = CHR ''e'' \<or> c = CHR ''E'' then
            (case parse_sign cs of
               (neg, ds) \<Rightarrow>
                 if takeWhile is_digit ds = [] then None
                 else Some ((if neg then - int (digits_val (takeWhile is_digit ds))
                             else int (digits_val (takeWhile is_digit ds))),
                            dropWhile is_digit ds))
          else Some (0, s))"

definition parse_number :: "string \<Rightarrow> (json \<times> string) option" where
  "parse_number s =
     (case (case s of [] \<Rightarrow> (False, [])
            | c # cs \<Rightarrow> if c = CHR ''-'' then (True, cs) else (False, s)) of
        (neg, s1) \<Rightarrow>
          (case parse_int_part s1 of
             None \<Rightarrow> None
           | Some (ip, s2) \<Rightarrow>
               (case parse_frac s2 of
                  None \<Rightarrow> None
                | Some (fp, s3) \<Rightarrow>
                    (case parse_exp s3 of
                       None \<Rightarrow> None
                     | Some (e, s4) \<Rightarrow>
                         Some (JNum (if neg then - int (digits_val (ip @ fp))
                                     else int (digits_val (ip @ fp)))
                                    (e - int (length fp)), s4)))))"

definition match_lit :: "string \<Rightarrow> string \<Rightarrow> string option" where
  "match_lit lit s = (if take (length lit) s = lit then Some (drop (length lit) s) else None)"

text \<open>
  Values, array elements and object members. The first argument bounds the depth of the
  calls; \<open>JSON_parse\<close> supplies twice the length of the text and two more, which no
  text can use up (lemma \<open>JSON_parse_fuel\<close> below), so that \<open>None\<close> always means a syntax
  error. \<open>parse_elements\<close> and \<open>parse_members\<close> start after the opening bracket of a
  non-empty array or object and consume the closing one.
\<close>

fun parse_value :: "nat \<Rightarrow> string \<Rightarrow> (json \<times> string) option"
  and parse_elements :: "nat \<Rightarrow> string \<Rightarrow> (json list \<times> string) option"
  and parse_members :: "nat \<Rightarrow> string \<Rightarrow> ((string \<times> json) list \<times> string) option"
where
  "parse_value 0 s = None"
| "parse_value (Suc n) s =
     (case skip_ws s of
        [] \<Rightarrow> None
      | c # cs \<Rightarrow>
          if c = CHR ''{'' then
            (case skip_ws cs of
               [] \<Rightarrow> None
             | d # ds \<Rightarrow>
                 if d = CHR ''}'' then Some (JObj [], ds)
                 else (case parse_members n (d # ds) of
                         None \<Rightarrow> None
                       | Some (kvs, r) \<Rightarrow> Some (JObj kvs, r)))
          else if c = CHR ''['' then
            (case skip_ws cs of
               [] \<Rightarrow> None
             | d # ds \<Rightarrow>
                 if d = CHR '']'' then Some (JArr [], ds)
                 else (case parse_elements n (d # ds) of
                         None \<Rightarrow> None
                       | Some (vs, r) \<Rightarrow> Some (JArr vs, r)))
          else if c = DQ then
            (case parse_chars cs of
               None \<Rightarrow> None
             | Some (str, r) \<Rightarrow> Some (JStr str, r))
          else if c = CHR ''t'' then
            (case match_lit ''rue'' cs of None \<Rightarrow> None | Some r \<Rightarrow> Some (JBool True, r))
          else if c = CHR ''f'' then
            (case match_lit ''alse'' cs of None \<Rightarrow> None | Some r \<Rightarrow> Some (JBool False, r))
          else if c = CHR ''n'' then
            (case match_lit ''ull'' cs of None \<Rightarrow> None | Some r \<Rightarrow> Some (JNull, r))
          else parse_number (c # cs))"
| "parse_elements 0 s = None"
| "parse_elements (Suc n) s =
     (case parse_value n s of
        None \<Rightarrow> None
      | Some (v, r) \<Rightarrow>
          (case skip_ws r of
             [] \<Rightarrow> None
           | c # cs \<Rightarrow>
               if c = CHR '','' then
                 (case parse_elements n cs of
                    None \<Rightarrow> None
                  | Some (vs, r1) \<Rightarrow> Some (v # vs, r1))
               else if c = CHR '']'' then Some ([v], cs)
               else None))"
| "parse_members 0 s = None"
| "parse_members (Suc n) s =
     (case skip_ws s of
        [] \<Rightarrow> None
      | q # cs \<Rightarrow>
          if q = DQ then
            (case parse_chars cs of
               None \<Rightarrow> None
             | Some (k, r) \<Rightarrow>
                 (case skip_ws r of
                    [] \<Rightarrow> None
                  | c # r1 \<Rightarrow>
                      if c = CHR '':'' then
                        (case parse_value n r1 of
                           None \<Rightarrow> None
                         | Some (v, r2) \<Rightarrow>
                             (case skip_ws r2 of
                                [] \<Rightarrow> None
                              | d # r3 \<Rightarrow>
                                  if d = CHR '','' then
                                    (case parse_members n r3 of
                                       None \<Rightarrow> None
                                     | Some (kvs, r4) \<Rightarrow> Some ((k, v) # kvs, r4))
                                  else if d = CHR ''}'' then Some ([(k, v)], r3)
                                  else None))
                      else None))
          else None)"

definition JSON_parse :: "string \<Rightarrow> json option" where
  "JSON_parse s =
     (case parse_value (2 * length s + 2) s of
        None \<Rightarrow> None
      | Some (v, r) \<Rightarrow> if skip_ws r = [] then Some v else None)"

subsection \<open>Exceptions, and JavaScript's view of a parsed value\<close>

datatype errno = ENOENT | EACCES | ENOTDIR | EEXIST

text \<open>
  The exceptions the modelled code can raise. The first eleven are the \<^verbatim>\<open>throw\<close> and
  \<^verbatim>\<open>reject\<close> statements of \<^verbatim>\<open>auth.ts\<close>; the others come from Node and from the \<^verbatim>\<open>open\<close>
  package (\<^verbatim>\<open>fs\<close>, \<^verbatim>\<open>fetch\<close>, \<^verbatim>\<open>response.json()\<close>, \<^verbatim>\<open>JSON.parse\<close>, a property read on
  \<^verbatim>\<open>null\<close>, a browser that cannot be started). \<open>OutsideDeclaredType\<close> is not an exception
  of the program: it marks a parsed value that does not have the shape of the TypeScript
  type it is cast to, where the program would go on with JavaScript's implicit
  conversions, which are not modelled.
\<close>

datatype error =
    MissingEnv string
  | NotAuthenticated
  | AccessTokenExpiredNoRefreshToken
  | RefreshTokenExpired
  | NoRefreshTokenAvailable
  | TokenRefreshFailed nat string
  | OAuthStateMismatch
  | NoAuthorizationCode
  | OAuthTimeout
  | CallbackServerFailed
  | TokenExchangeFailed nat string
  | FsError errno
  | FetchFailed
  | BrowserFailed
  | ResponseNotJson
  | SyntaxError
  | TypeError
  | OutsideDeclaredType

text \<open>
  \<open>own_prop\<close> reads an own property of a parsed object; \<^verbatim>\<open>JSON.parse\<close> lets the last of
  several equal keys win. \<open>get_prop\<close> is the read \<^verbatim>\<open>v.k\<close> for a key that no prototype
  defines: it throws on \<^verbatim>\<open>null\<close> and is \<^verbatim>\<open>undefined\<close> (\<open>None\<close>) on every other
  value that is not an object with that key.
\<close>

definition own_prop :: "(string \<times> json) list \<Rightarrow> string \<Rightarrow> json option" where
  "own_prop kvs k = map_of (rev kvs) k"

fun get_prop :: "json \<Rightarrow> string \<Rightarrow> error + json option" where
  "get_prop JNull k = Inl TypeError"
| "get_prop (JObj kvs) k = Inr (own_prop kvs k)"
| "get_prop v k = Inr None"

text \<open>JavaScript truthiness of a value that came out of \<^verbatim>\<open>JSON.parse\<close>, or of \<^verbatim>\<open>undefined\<close>.\<close>

fun truthy :: "json option \<Rightarrow> bool" where
  "truthy None = False"
| "truthy (Some JNull) = False"
| "truthy (Some (JBool b)) = b"
| "truthy (Some (JNum m e)) = (m \<noteq> 0)"
| "truthy (Some (JStr s)) = (s \<noteq> [])"
| "truthy (Some (JArr vs)) = True"
| "truthy (Some (JObj kvs)) = True"

fun num_int :: "json \<Rightarrow> int option" where
  "num_int (JNum m e) =
     (if 0 \<le> e then Some (m * 10 ^ nat e)
      else if m mod 10 ^ nat (- e) = 0 then Some (m div 10 ^ nat (- e))
      else None)"
| "num_int v = None"

definition str_field :: "(string \<times> json) list \<Rightarrow> string \<Rightarrow> string option" where
  "str_field kvs k = (case own_prop kvs k of Some (JStr s) \<Rightarrow> Some s | _ \<Rightarrow> None)"

definition int_field :: "(string \<times> json) list \<Rightarrow> string \<Rightarrow> int option" where
  "int_field kvs k = (case own_prop kvs k of Some v \<Rightarrow> num_int v | None \<Rightarrow> None)"

text \<open>
  A property of an answer of the token endpoint may be missing (\<^verbatim>\<open>undefined\<close>), \<^verbatim>\<open>null\<close>,
  or a value of the declared type. In \<open>opt_str_field\<close> and \<open>opt_int_field\<close> the option
  says whether the property fits the declared type in that sense.
\<close>

datatype 'a property = Undefined | Null | Value 'a

definition opt_str_field :: "(string \<times> json) list \<Rightarrow> string \<Rightarrow> string property option" where
  "opt_str_field kvs k =
     (case own_prop kvs k of
        None \<Rightarrow> Some Undefined
      | Some JNull \<Rightarrow> Some Null
      | Some (JStr s) \<Rightarrow> Some (Value s)
      | Some _ \<Rightarrow> None)"

definition opt_int_field :: "(string \<times> json) list \<Rightarrow> string \<Rightarrow> int property option" where
  "opt_int_field kvs k =
     (case own_prop kvs k of
        None \<Rightarrow> Some Undefined
      | Some JNull \<Rightarrow> Some Null
      | Some v \<Rightarrow> (case num_int v of None \<Rightarrow> None | Some n \<Rightarrow> Some (Value n)))"

text \<open>
  The conversion \<^verbatim>\<open>ToNumber\<close> that \<^verbatim>\<open>*\<close> applies to its operand: \<^verbatim>\<open>undefined\<close> becomes
  \<^verbatim>\<open>NaN\<close> and \<^verbatim>\<open>null\<close> becomes 0.
\<close>

fun to_number :: "int property \<Rightarrow> number" where
  "to_number Undefined = NaN"
| "to_number Null = Finite 0"
| "to_number (Value n) = Finite n"

subsection \<open>The types of \<^verbatim>\<open>types.ts\<close>\<close>

text \<open>
  \<^verbatim>\<open>StoredTokens\<close>. The type of the two expiry fields is a parameter: a record in memory,
  as \<open>saveTokens\<close> receives it, is a \<open>number StoredTokens\<close>, whose expiries can be \<^verbatim>\<open>NaN\<close> or
  infinite; a record that came out of \<^verbatim>\<open>JSON.parse\<close>, or that \<open>loadTokens\<close> builds from
  the clock, is an \<open>int StoredTokens\<close>. \<open>finite_tokens\<close> is the inclusion of the second in
  the first.
\<close>

record 'n StoredTokens =
  access_token :: string
  refresh_token :: string
  expires_at :: 'n
  refresh_token_expires_at :: 'n
  scope :: string

definition finite_tokens :: "int StoredTokens \<Rightarrow> number StoredTokens" where
  "finite_tokens t =
     \<lparr>access_token = access_token t, refresh_token = refresh_token t,
      expires_at = Finite (expires_at t),
      refresh_token_expires_at = Finite (refresh_token_expires_at t), scope = scope t\<rparr>"

text \<open>
  \<^verbatim>\<open>OAuthTokenResponse\<close>, with the fields \<^verbatim>\<open>auth.ts\<close> reads. The interface declares all of
  them required; the answer of the endpoint is cast to it unchecked, so every property
  but \<^verbatim>\<open>access_token\<close> may be missing or \<^verbatim>\<open>null\<close> here.
\<close>

record OAuthTokenResponse =
  data_access_token :: string
  data_expires_in :: "int property"
  data_scope :: "string property"
  data_refresh_token :: "string property"
  data_refresh_token_expires_at :: "int property"

definition json_of_tokens :: "int StoredTokens \<Rightarrow> json" where
  "json_of_tokens t =
     JObj [(''access_token'', JStr (access_token t)),
           (''refresh_token'', JStr (refresh_token t)),
           (''expires_at'', JNum (expires_at t) 0),
           (''refresh_token_expires_at'', JNum (refresh_token_expires_at t) 0),
           (''scope'', JStr (scope t))]"

text \<open>The cast \<^verbatim>\<open>as StoredTokens\<close>, where the value has that shape.\<close>

definition as_StoredTokens :: "json \<Rightarrow> int StoredTokens option" where
  "as_StoredTokens j =
     (case j of
        JObj kvs \<Rightarrow>
          (case str_field kvs ''access_token'' of None \<Rightarrow> None | Some a \<Rightarrow>
           case str_field kvs ''refresh_token'' of None \<Rightarrow> None | Some r \<Rightarrow>
           case int_field kvs ''expires_at'' of None \<Rightarrow> None | Some e \<Rightarrow>
           case int_field kvs ''refresh_token_expires_at'' of None \<Rightarrow> None | Some re \<Rightarrow>
           case str_field kvs ''scope'' of None \<Rightarrow> None | Some s \<Rightarrow>
             Some \<lparr>access_token = a, refresh_token = r, expires_at = e,
                   refresh_token_expires_at = re, scope = s\<rparr>)
      | _ \<Rightarrow> None)"

text \<open>The cast \<^verbatim>\<open>as OAuthTokenResponse\<close>, where the value has that shape.\<close>

definition as_OAuthTokenResponse :: "json \<Rightarrow> OAuthTokenResponse option" where
  "as_OAuthTokenResponse j =
     (case j of
        JObj kvs \<Rightarrow>
          (case str_field kvs ''access_token'' of None \<Rightarrow> None | Some a \<Rightarrow>
           case opt_int_field kvs ''expires_in'' of None \<Rightarrow> None | Some e \<Rightarrow>
           case opt_str_field kvs ''scope'' of None \<Rightarrow> None | Some s \<Rightarrow>
           case opt_str_field kvs ''refresh_token'' of None \<Rightarrow> None | Some r \<Rightarrow>
           case opt_int_field kvs ''refresh_token_expires_at'' of None \<Rightarrow> None | Some re \<Rightarrow>
             Some \<lparr>data_access_token = a, data_expires_in = e, data_scope = s,
                   data_refresh_token = r, data_refresh_token_expires_at = re\<rparr>)
      | _ \<Rightarrow> None)"

text \<open>
  \<^verbatim>\<open>JSON.stringify(tokens, null, 2)\<close> for a \<open>StoredTokens\<close>: the five properties in the order
  of the object literal, one per line, indented by two spaces.
\<close>

definition JSON_stringify :: "number StoredTokens \<Rightarrow> string" where
  "JSON_stringify t =
     ''{'' @ [NL] @
     ''  '' @ JSON_quote ''access_token'' @ '': '' @ JSON_quote (access_token t) @ '','' @ [NL] @
     ''  '' @ JSON_quote ''refresh_token'' @ '': '' @ JSON_quote (refresh_token t) @ '','' @ [NL] @
     ''  '' @ JSON_quote ''expires_at'' @ '': '' @
        stringify_number (expires_at t) @ '','' @ [NL] @
     ''  '' @ JSON_quote ''refresh_token_expires_at'' @ '': '' @
        stringify_number (refresh_token_expires_at t) @ '','' @ [NL] @
     ''  '' @ JSON_quote ''scope'' @ '': '' @ JSON_quote (scope t) @ [NL] @
     ''}''"

subsection \<open>The world outside the module\<close>

type_synonym mode = "32 word"

text \<open>
  What the file system holds at \<^verbatim>\<open>~/.mcp-credentials\<close>: nothing, a directory with its
  permission bits, or something that is not a directory.
\<close>

datatype dir_entry = NoEntry | Directory mode | NotDirectory

text \<open>
  A request to the token endpoint. \<open>basic_auth\<close> is the pair that the \<^verbatim>\<open>Authorization\<close>
  header encodes (base64 of \<^verbatim>\<open>id:secret\<close>), \<open>form\<close> the fields of the URL-encoded body.
\<close>

record http_request =
  url :: string
  basic_auth :: "string \<times> string"
  form :: "(string \<times> string) list"

text \<open>What \<^verbatim>\<open>fetch\<close> comes back with: a rejection, or a status and a body.\<close>

datatype http_response = NetworkFailure | Response nat string

text \<open>
  A request that reaches the callback listener: the path of its URL and the values of
  the query parameters \<^verbatim>\<open>code\<close> and \<^verbatim>\<open>state\<close> (\<open>None\<close>: the parameter is not there, and
  \<^verbatim>\<open>searchParams.get\<close> returns \<^verbatim>\<open>null\<close>).
\<close>

record callback =
  cb_pathname :: string
  cb_code :: "string option"
  cb_state :: "string option"

text \<open>
  What the handshake does to the callback port and to the browser, in the order in which
  it happens:
  \<^item> \<open>ListenRequested p\<close>: \<^verbatim>\<open>server.listen(p)\<close> is called;
  \<^item> \<open>ListenerReady p\<close>: the port is bound and the listener accepts connections;
  \<^item> \<open>BrowserLaunched u\<close>: \<^verbatim>\<open>open(u)\<close> starts the browser at the URL \<open>u\<close>;
  \<^item> \<open>HttpReply s\<close>: the listener answers a request with status \<open>s\<close>;
  \<^item> \<open>ListenerClosed\<close>: \<^verbatim>\<open>cleanup()\<close> closes the listener.
\<close>

datatype event =
    ListenRequested nat
  | ListenerReady nat
  | BrowserLaunched string
  | HttpReply nat
  | ListenerClosed

text \<open>
  \<^item> \<open>env_*\<close>: the three variables of \<^verbatim>\<open>process.env\<close> the module reads (\<open>None\<close>: unset).
  \<^item> \<open>clock\<close>, \<open>ticks\<close>: the \<open>n\<close>-th call of \<^verbatim>\<open>Date.now()\<close> returns \<open>clock n\<close>; \<open>ticks\<close>
    counts the calls made so far. Nothing is assumed about successive readings.
  \<^item> \<open>umask\<close>, \<open>home_writable\<close>, \<open>token_dir\<close>, \<open>token_file\<close>: the process's file mode
    creation mask, whether it may create entries in the home directory, the credential
    directory, and the credential file in it (mode and content) when there is one.
  \<^item> \<open>responses\<close>: what the token endpoint will answer to the calls still to come, in
    order; \<open>requests\<close>: the calls made so far.
  \<^item> \<open>stderr\<close>: the lines written by \<^verbatim>\<open>console.error\<close>.
  \<^item> \<open>port_free\<close>: the outcome of the bind when \<^verbatim>\<open>server.listen\<close> is called on the
    callback port: it succeeds, or it fails (the port is in use, say) and the server
    emits \<^verbatim>\<open>error\<close>.
  \<^item> \<open>browser_opens\<close>: whether \<^verbatim>\<open>open\<close> can start the browser.
  \<^item> \<open>random_uuid\<close>: what \<^verbatim>\<open>randomUUID()\<close> returns.
  \<^item> \<open>callbacks\<close>: the requests that reach the callback listener before the two-minute
    timeout, in order; when they are used up and the listener still waits, the timeout
    fires.
  \<^item> \<open>events\<close>: the trace of what was done to the port and the browser so far.
\<close>

record world =
  env_PINTEREST_ACCESS_TOKEN :: "string option"
  env_PINTEREST_APP_ID :: "string option"
  env_PINTEREST_APP_SECRET :: "string option"
  clock :: "nat \<Rightarrow> int"
  ticks :: nat
  umask :: mode
  home_writable :: bool
  token_dir :: dir_entry
  token_file :: "(mode \<times> string) option"
  responses :: "http_response list"
  requests :: "http_request list"
  stderr :: "string list"
  port_free :: bool
  browser_opens :: bool
  random_uuid :: string
  callbacks :: "callback list"
  events :: "event list"

definition Date_now :: "world \<Rightarrow> int \<times> world" where
  "Date_now w = (clock w (ticks w), w\<lparr>ticks := Suc (ticks w)\<rparr>)"

definition console_error :: "string \<Rightarrow> world \<Rightarrow> world" where
  "console_error line w = w\<lparr>stderr := stderr w @ [line]\<rparr>"

text \<open>
  Permission bits. The process is taken to own the directory and the file and not to be
  the superuser, so the owner bits decide (0o400 read, 0o200 write, 0o100 search).
\<close>

definition owner_r :: "mode \<Rightarrow> bool" where "owner_r m \<longleftrightarrow> m AND 0x100 \<noteq> 0"
definition owner_w :: "mode \<Rightarrow> bool" where "owner_w m \<longleftrightarrow> m AND 0x080 \<noteq> 0"
definition owner_x :: "mode \<Rightarrow> bool" where "owner_x m \<longleftrightarrow> m AND 0x040 \<noteq> 0"

text \<open>No bit for the group or for others (0o077) is set.\<close>

definition owner_only :: "mode \<Rightarrow> bool" where "owner_only m \<longleftrightarrow> m AND 0x03F = 0"

text \<open>\<^verbatim>\<open>fs.existsSync(dir)\<close>\<close>

definition fs_existsSync :: "world \<Rightarrow> bool" where
  "fs_existsSync w \<longleftrightarrow> token_dir w \<noteq> NoEntry"

text \<open>
  \<^verbatim>\<open>fs.mkdirSync(dir, { recursive: true })\<close>: no mode is passed, so a new directory gets
  Node's default 0o777 less the bits of the umask. With \<^verbatim>\<open>recursive\<close> an existing
  directory is not an error.
\<close>

definition fs_mkdirSync :: "world \<Rightarrow> error + world" where
  "fs_mkdirSync w =
     (case token_dir w of
        NoEntry \<Rightarrow>
          if home_writable w
          then Inr (w\<lparr>token_dir := Directory (0x1FF AND NOT (umask w)), token_file := None\<rparr>)
          else Inl (FsError EACCES)
      | Directory dm \<Rightarrow> Inr w
      | NotDirectory \<Rightarrow> Inl (FsError EEXIST))"

text \<open>
  \<^verbatim>\<open>fs.writeFileSync(path, data, { mode })\<close> opens with \<^verbatim>\<open>O_WRONLY|O_CREAT|O_TRUNC\<close>: the
  mode (less the umask) is given to a file that the call creates; a file that is already
  there is truncated and keeps its mode.
\<close>

definition fs_writeFileSync :: "string \<Rightarrow> mode \<Rightarrow> world \<Rightarrow> error + world" where
  "fs_writeFileSync data md w =
     (case token_dir w of
        NoEntry \<Rightarrow> Inl (FsError ENOENT)
      | NotDirectory \<Rightarrow> Inl (FsError ENOTDIR)
      | Directory dm \<Rightarrow>
          if \<not> owner_x dm then Inl (FsError EACCES)
          else
            (case token_file w of
               Some (fm, old) \<Rightarrow>
                 if owner_w fm then Inr (w\<lparr>token_file := Some (fm, data)\<rparr>)
                 else Inl (FsError EACCES)
             | None \<Rightarrow>
                 if owner_w dm then Inr (w\<lparr>token_file := Some (md AND NOT (umask w), data)\<rparr>)
                 else Inl (FsError EACCES)))"

text \<open>\<^verbatim>\<open>fs.readFileSync(path, "utf-8")\<close>\<close>

definition fs_readFileSync :: "world \<Rightarrow> error + string" where
  "fs_readFileSync w =
     (case token_dir w of
        NoEntry \<Rightarrow> Inl (FsError ENOENT)
      | NotDirectory \<Rightarrow> Inl (FsError ENOTDIR)
      | Directory dm \<Rightarrow>
          if \<not> owner_x dm then Inl (FsError EACCES)
          else
            (case token_file w of
               None \<Rightarrow> Inl (FsError ENOENT)
             | Some (fm, data) \<Rightarrow>
                 if owner_r fm then Inr data else Inl (FsError EACCES)))"

text \<open>
  \<^verbatim>\<open>fetch\<close>: the request is recorded and the next answer of the endpoint is taken; with
  none left the call is rejected.
\<close>

definition fetch :: "http_request \<Rightarrow> world \<Rightarrow> http_response \<times> world" where
  "fetch req w =
     (case responses w of
        [] \<Rightarrow> (NetworkFailure, w\<lparr>requests := requests w @ [req]\<rparr>)
      | r # rs \<Rightarrow> (r, w\<lparr>requests := requests w @ [req], responses := rs\<rparr>))"

definition response_ok :: "nat \<Rightarrow> bool" where
  "response_ok status \<longleftrightarrow> 200 \<le> status \<and> status \<le> 299"

text \<open>
  \<^verbatim>\<open>server.listen(port, callback)\<close>. No host is given, so Node looks up no name and
  binds the port during the call. When the bind succeeds the listener accepts
  connections from then on, and the callback, which writes a diagnostic line, runs
  before anything else of the module does. When it fails nothing listens, and the server
  emits \<^verbatim>\<open>error\<close> afterwards. The result says which.
\<close>

definition server_listen :: "nat \<Rightarrow> string \<Rightarrow> world \<Rightarrow> bool \<times> world" where
  "server_listen port line w =
     (if port_free w
      then (True, w\<lparr>stderr := stderr w @ [line],
                     events := events w @ [ListenRequested port, ListenerReady port]\<rparr>)
      else (False, w\<lparr>events := events w @ [ListenRequested port]\<rparr>))"

text \<open>
  \<^verbatim>\<open>open(target)\<close> of the \<^verbatim>\<open>open\<close> package (\<open>open\<close> is a keyword of Isabelle, hence
  the name): the browser is started at the URL, or the promise is rejected. The launch
  is counted where \<^verbatim>\<open>open\<close> is called.
\<close>

definition open_browser :: "string \<Rightarrow> world \<Rightarrow> (error + unit) \<times> world" where
  "open_browser target w =
     (if browser_opens w
      then (Inr (), w\<lparr>events := events w @ [BrowserLaunched target]\<rparr>)
      else (Inl BrowserFailed, w))"

text \<open>
  The serialisation of \<^verbatim>\<open>URLSearchParams\<close> (\<^verbatim>\<open>application/x-www-form-urlencoded\<close>):
  letters, digits and \<^verbatim>\<open>*-._\<close> are copied, a space becomes \<^verbatim>\<open>+\<close>, every other byte
  becomes \<^verbatim>\<open>%XX\<close> in upper-case hexadecimal; the pairs are joined by \<^verbatim>\<open>&\<close>.
\<close>

definition HEX_digit :: "nat \<Rightarrow> char" where
  "HEX_digit n = ''0123456789ABCDEF'' ! (n mod 16)"

definition is_alnum :: "char \<Rightarrow> bool" where
  "is_alnum c \<longleftrightarrow>
     (let n = (of_char c :: nat) in
      (48 \<le> n \<and> n \<le> 57) \<or> (65 \<le> n \<and> n \<le> 90) \<or> (97 \<le> n \<and> n \<le> 122))"

definition form_encode_char :: "char \<Rightarrow> string" where
  "form_encode_char c =
     (if is_alnum c \<or> c = CHR ''*'' \<or> c = CHR ''-'' \<or> c = CHR ''.'' \<or> c = CHR ''_'' then [c]
      else if c = CHR '' '' then ''+''
      else [CHR ''%'', HEX_digit (of_char c div 16), HEX_digit (of_char c mod 16)])"

definition form_encode :: "string \<Rightarrow> string" where
  "form_encode s = concat (map form_encode_char s)"

fun join_pairs :: "(string \<times> string) list \<Rightarrow> string" where
  "join_pairs [] = []"
| "join_pairs [(k, v)] = form_encode k @ ''='' @ form_encode v"
| "join_pairs ((k, v) # p # ps) =
     form_encode k @ ''='' @ form_encode v @ ''&'' @ join_pairs (p # ps)"

subsection \<open>\<^verbatim>\<open>auth.ts\<close>: configuration and environment\<close>

definition OAUTH_CALLBACK_PORT :: nat where
  "OAUTH_CALLBACK_PORT = 3333"

definition OAUTH_REDIRECT_URI :: string where
  "OAUTH_REDIRECT_URI = ''http://localhost:3333/callback''"

definition OAUTH_SCOPES :: string where
  "OAUTH_SCOPES = ''boards:read,boards:write,pins:read,pins:write,user_accounts:read''"

definition PINTEREST_AUTH_URL :: string where
  "PINTEREST_AUTH_URL = ''https://www.pinterest.com/oauth/''"

definition PINTEREST_TOKEN_URL :: string where
  "PINTEREST_TOKEN_URL = ''https://api.pinterest.com/v5/oauth/token''"

definition TOKEN_EXPIRY_BUFFER_MS :: int where
  "TOKEN_EXPIRY_BUFFER_MS = 60000"

definition getTokenDir :: string where
  "getTokenDir = ''~/.mcp-credentials''"

definition getTokenPath :: string where
  "getTokenPath = getTokenDir @ ''/pinterest-tokens.json''"

definition getAppId :: "world \<Rightarrow> error + string" where
  "getAppId w =
     (case env_PINTEREST_APP_ID w of
        None \<Rightarrow> Inl (MissingEnv ''PINTEREST_APP_ID'')
      | Some app_id \<Rightarrow>
          if app_id = [] then Inl (MissingEnv ''PINTEREST_APP_ID'') else Inr app_id)"

definition getAppSecret :: "world \<Rightarrow> error + string" where
  "getAppSecret w =
     (case env_PINTEREST_APP_SECRET w of
        None \<Rightarrow> Inl (MissingEnv ''PINTEREST_APP_SECRET'')
      | Some secret \<Rightarrow>
          if secret = [] then Inl (MissingEnv ''PINTEREST_APP_SECRET'') else Inr secret)"

definition getBasicAuthHeader :: "world \<Rightarrow> error + (string \<times> string)" where
  "getBasicAuthHeader w =
     (case getAppId w of
        Inl e \<Rightarrow> Inl e
      | Inr app_id \<Rightarrow>
          (case getAppSecret w of Inl e \<Rightarrow> Inl e | Inr secret \<Rightarrow> Inr (app_id, secret)))"

text \<open>
  \<open>static_token w\<close> is the value of \<^verbatim>\<open>PINTEREST_ACCESS_TOKEN\<close> when the test
  \<^verbatim>\<open>if (process.env.PINTEREST_ACCESS_TOKEN)\<close> succeeds: the variable is set and not empty.
\<close>

definition static_token :: "world \<Rightarrow> string option" where
  "static_token w =
     (case env_PINTEREST_ACCESS_TOKEN w of
        None \<Rightarrow> None
      | Some envToken \<Rightarrow> if envToken = [] then None else Some envToken)"

subsection \<open>\<^verbatim>\<open>auth.ts\<close>: token storage\<close>

text \<open>The body of the \<^verbatim>\<open>try\<close> block of \<open>loadTokens\<close>; \<open>Inl\<close> is an exception thrown in it.\<close>

definition loadTokens_try :: "world \<Rightarrow> error + json option" where
  "loadTokens_try w =
     (case fs_readFileSync w of
        Inl e \<Rightarrow> Inl e
      | Inr data \<Rightarrow>
          (case JSON_parse data of
             None \<Rightarrow> Inl SyntaxError
           | Some parsed \<Rightarrow>
               (case get_prop parsed ''access_token'' of
                  Inl e \<Rightarrow> Inl e
                | Inr v \<Rightarrow> if \<not> truthy v then Inr None else Inr (Some parsed))))"

definition loadTokens :: "world \<Rightarrow> json option \<times> world" where
  "loadTokens w =
     (case static_token w of
        Some envToken \<Rightarrow>
          (case Date_now w of
             (now, w1) \<Rightarrow>
               (Some (json_of_tokens
                  \<lparr>access_token = envToken,
                   refresh_token = [],
                   expires_at = now + 24 * 60 * 60 * 1000,
                   refresh_token_expires_at = 0,
                   scope = ''pins:read,boards:read,user_accounts:read,ads:read,catalogs:read''\<rparr>),
                w1))
      | None \<Rightarrow>
          (case loadTokens_try w of
             Inl e \<Rightarrow> (None, w)
           | Inr r \<Rightarrow> (r, w)))"

definition saveTokens :: "number StoredTokens \<Rightarrow> world \<Rightarrow> (error + unit) \<times> world" where
  "saveTokens tokens w =
     (case (if \<not> fs_existsSync w then fs_mkdirSync w else Inr w) of
        Inl e \<Rightarrow> (Inl e, w)
      | Inr w1 \<Rightarrow>
          (case fs_writeFileSync (JSON_stringify tokens) 0x180 w1 of
             Inl e \<Rightarrow> (Inl e, w1)
           | Inr w2 \<Rightarrow>
               (Inr (), console_error (''[auth] Tokens saved to '' @ getTokenPath) w2)))"

subsection \<open>\<^verbatim>\<open>auth.ts\<close>: OAuth flow\<close>

text \<open>
  The promise that \<open>waitForAuthorizationCode\<close> returns. Its executor runs during the
  call: it creates the server, sets the timeout and calls \<^verbatim>\<open>server.listen\<close>. When the
  bind fails, the \<^verbatim>\<open>error\<close> handler rejects the promise (\<open>FailedToStart\<close>); nothing is
  thrown at the caller, who learns of it when it awaits the promise. Otherwise the promise
  is settled by the request handler or by the timeout (\<open>AwaitingCallback\<close>, with the
  \<^verbatim>\<open>state\<close> the handler compares).
\<close>

datatype promise = FailedToStart | AwaitingCallback string

definition waitForAuthorizationCode :: "string \<Rightarrow> world \<Rightarrow> promise \<times> world" where
  "waitForAuthorizationCode state w =
     (case server_listen OAUTH_CALLBACK_PORT
             ''[auth] OAuth callback server listening on port 3333'' w of
        (True, w1) \<Rightarrow> (AwaitingCallback state, w1)
      | (False, w1) \<Rightarrow> (FailedToStart, w1))"

text \<open>
  The request handler over the requests that arrive, and the timeout when none of them
  settles the promise: the result of the promise, the events, and the requests that
  arrive after the listener was closed.
\<close>

fun handle_requests ::
  "string \<Rightarrow> callback list \<Rightarrow> (error + string) \<times> event list \<times> callback list" where
  "handle_requests state [] = (Inl OAuthTimeout, [ListenerClosed], [])"
| "handle_requests state (req # rest) =
     (if cb_pathname req \<noteq> ''/callback''
      then (case handle_requests state rest of (r, es, left) \<Rightarrow> (r, HttpReply 404 # es, left))
      else if cb_state req \<noteq> Some state
      then (Inl OAuthStateMismatch, [HttpReply 400, ListenerClosed], rest)
      else
        (case cb_code req of
           None \<Rightarrow> (Inl NoAuthorizationCode, [HttpReply 400, ListenerClosed], rest)
         | Some code \<Rightarrow>
             if code = [] then (Inl NoAuthorizationCode, [HttpReply 400, ListenerClosed], rest)
             else (Inr code, [HttpReply 200, ListenerClosed], rest)))"

text \<open>\<^verbatim>\<open>await codePromise\<close>\<close>

definition await_promise :: "promise \<Rightarrow> world \<Rightarrow> (error + string) \<times> world" where
  "await_promise p w =
     (case p of
        FailedToStart \<Rightarrow> (Inl CallbackServerFailed, w)
      | AwaitingCallback state \<Rightarrow>
          (case handle_requests state (callbacks w) of
             (r, es, left) \<Rightarrow> (r, w\<lparr>events := events w @ es, callbacks := left\<rparr>)))"

definition exchange_request :: "string \<times> string \<Rightarrow> string \<Rightarrow> http_request" where
  "exchange_request auth code =
     \<lparr>url = PINTEREST_TOKEN_URL, basic_auth = auth,
      form = [(''grant_type'', ''authorization_code''), (''code'', code),
              (''redirect_uri'', OAUTH_REDIRECT_URI)]\<rparr>"

text \<open>
  \<open>exchangeCodeForTokens\<close> copies \<^verbatim>\<open>refresh_token\<close> and \<^verbatim>\<open>scope\<close> of the answer into
  string fields, so an answer without them is outside the declared type; the two
  expiries are computed with \<^verbatim>\<open>*\<close> and \<^verbatim>\<open>+\<close>, which make \<^verbatim>\<open>NaN\<close> of a missing operand.
\<close>

definition exchangeCodeForTokens ::
  "string \<Rightarrow> world \<Rightarrow> (error + number StoredTokens) \<times> world" where
  "exchangeCodeForTokens code w =
     (case getBasicAuthHeader w of
        Inl e \<Rightarrow> (Inl e, w)
      | Inr auth \<Rightarrow>
          (case fetch (exchange_request auth code) w of
             (NetworkFailure, w1) \<Rightarrow> (Inl FetchFailed, w1)
           | (Response status body, w1) \<Rightarrow>
               if \<not> response_ok status
               then (Inl (TokenExchangeFailed status body), w1)
               else
                 (case JSON_parse body of
                    None \<Rightarrow> (Inl ResponseNotJson, w1)
                  | Some dj \<Rightarrow>
                      (case as_OAuthTokenResponse dj of
                         None \<Rightarrow> (Inl OutsideDeclaredType, w1)
                       | Some data \<Rightarrow>
                           (case (data_refresh_token data, data_scope data) of
                              (Value rt, Value sc) \<Rightarrow>
                                (case Date_now w1 of
                                   (now, w2) \<Rightarrow>
                                     (Inr \<lparr>access_token = data_access_token data,
                                           refresh_token = rt,
                                           expires_at =
                                             num_add (Finite now)
                                               (num_mul (to_number (data_expires_in data))
                                                  (Finite 1000)),
                                           refresh_token_expires_at =
                                             num_mul
                                               (to_number (data_refresh_token_expires_at data))
                                               (Finite 1000),
                                           scope = sc\<rparr>,
                                      w2))
                            | _ \<Rightarrow> (Inl OutsideDeclaredType, w1))))))"

text \<open>\<^verbatim>\<open>authUrl.toString()\<close> for an application id and a \<^verbatim>\<open>state\<close>.\<close>

definition authUrl :: "string \<Rightarrow> string \<Rightarrow> string" where
  "authUrl app_id state =
     PINTEREST_AUTH_URL @ ''?'' @
     join_pairs [(''consumer_id'', app_id), (''redirect_uri'', OAUTH_REDIRECT_URI),
                 (''response_type'', ''code''), (''refreshable'', ''true''),
                 (''scope'', OAUTH_SCOPES), (''state'', state)]"

text \<open>
  \<open>startOAuthFlow\<close>. Between the call of \<open>waitForAuthorizationCode\<close> and the call of
  \<^verbatim>\<open>open\<close> there is no \<^verbatim>\<open>await\<close>: the browser is started next, whatever the bind did.
\<close>

definition startOAuthFlow :: "world \<Rightarrow> (error + string) \<times> world" where
  "startOAuthFlow w =
     (let state = random_uuid w in
      case getAppId w of
        Inl e \<Rightarrow> (Inl e, w)
      | Inr app_id \<Rightarrow>
          (let w1 = console_error ''[auth] Starting OAuth flow...'' w;
               w2 = console_error (''[auth] Authorization URL: '' @ authUrl app_id state) w1
           in
           case waitForAuthorizationCode state w2 of
             (codePromise, w3) \<Rightarrow>
               (case open_browser (authUrl app_id state) w3 of
                  (Inl e, w4) \<Rightarrow> (Inl e, w4)
                | (Inr u, w4) \<Rightarrow>
                    (let w5 = console_error
                                ''[auth] Browser opened. Waiting for authorization...'' w4
                     in
                     case await_promise codePromise w5 of
                       (Inl e, w6) \<Rightarrow> (Inl e, w6)
                     | (Inr code, w6) \<Rightarrow>
                         (let w7 = console_error
                                     (''[auth] Authorization code received. '' @
                                      ''Exchanging for tokens...'') w6
                          in
                          case exchangeCodeForTokens code w7 of
                            (Inl e, w8) \<Rightarrow> (Inl e, w8)
                          | (Inr tokens, w8) \<Rightarrow>
                              (case saveTokens tokens w8 of
                                 (Inl e, w9) \<Rightarrow> (Inl e, w9)
                               | (Inr v, w9) \<Rightarrow>
                                   (Inr ''Successfully authenticated with Pinterest!'',
                                    console_error
                                      ''[auth] OAuth flow completed successfully.'' w9)))))))"

subsection \<open>\<^verbatim>\<open>auth.ts\<close>: token refresh\<close>

text \<open>
  The object literal \<^verbatim>\<open>newTokens\<close>, with \<open>now\<close> the reading of \<^verbatim>\<open>Date.now()\<close> in it.
  \<^verbatim>\<open>??\<close> takes its right operand when the left one is \<^verbatim>\<open>undefined\<close> or \<^verbatim>\<open>null\<close>; the
  conditional on \<^verbatim>\<open>data.refresh_token_expires_at\<close> takes its second branch when that is
  \<^verbatim>\<open>undefined\<close>, \<^verbatim>\<open>null\<close> or 0.
\<close>

definition newTokens ::
  "int StoredTokens \<Rightarrow> OAuthTokenResponse \<Rightarrow> int \<Rightarrow> number StoredTokens" where
  "newTokens tokens data now =
     \<lparr>access_token = data_access_token data,
      refresh_token =
        (case data_refresh_token data of Value rt \<Rightarrow> rt | _ \<Rightarrow> refresh_token tokens),
      expires_at =
        num_add (Finite now) (num_mul (to_number (data_expires_in data)) (Finite 1000)),
      refresh_token_expires_at =
        (case data_refresh_token_expires_at data of
           Value rte \<Rightarrow>
             if rte \<noteq> 0 then num_mul (Finite rte) (Finite 1000)
             else Finite (refresh_token_expires_at tokens)
         | _ \<Rightarrow> Finite (refresh_token_expires_at tokens)),
      scope = (case data_scope data of Value sc \<Rightarrow> sc | _ \<Rightarrow> scope tokens)\<rparr>"

definition refresh_request :: "string \<times> string \<Rightarrow> string \<Rightarrow> http_request" where
  "refresh_request auth rt =
     \<lparr>url = PINTEREST_TOKEN_URL, basic_auth = auth,
      form = [(''grant_type'', ''refresh_token''), (''refresh_token'', rt)]\<rparr>"

definition refreshAccessToken ::
  "world \<Rightarrow> (error + number StoredTokens) \<times> world" where
  "refreshAccessToken w =
     (case loadTokens w of
        (None, w1) \<Rightarrow> (Inl NoRefreshTokenAvailable, w1)
      | (Some j, w1) \<Rightarrow>
          (case as_StoredTokens j of
             None \<Rightarrow> (Inl OutsideDeclaredType, w1)
           | Some tokens \<Rightarrow>
               if refresh_token tokens = [] then (Inl NoRefreshTokenAvailable, w1)
               else
                 (let w2 = console_error ''[auth] Refreshing access token...'' w1 in
                  case getBasicAuthHeader w2 of
                    Inl e \<Rightarrow> (Inl e, w2)
                  | Inr auth \<Rightarrow>
                      (case fetch (refresh_request auth (refresh_token tokens)) w2 of
                         (NetworkFailure, w3) \<Rightarrow> (Inl FetchFailed, w3)
                       | (Response status body, w3) \<Rightarrow>
                           if \<not> response_ok status
                           then (Inl (TokenRefreshFailed status body), w3)
                           else
                             (case JSON_parse body of
                                None \<Rightarrow> (Inl ResponseNotJson, w3)
                              | Some dj \<Rightarrow>
                                  (case as_OAuthTokenResponse dj of
                                     None \<Rightarrow> (Inl OutsideDeclaredType, w3)
                                   | Some data \<Rightarrow>
                                       (case Date_now w3 of
                                          (now, w4) \<Rightarrow>
                                            (case saveTokens (newTokens tokens data now) w4 of
                                               (Inl e, w5) \<Rightarrow> (Inl e, w5)
                                             | (Inr u, w5) \<Rightarrow>
                                                 (Inr (newTokens tokens data now),
                                                  console_error
                                                    ''[auth] Access token refreshed successfully.''
                                                    w5)))))))))"

subsection \<open>\<^verbatim>\<open>auth.ts\<close>: public API\<close>

definition getValidAccessToken :: "world \<Rightarrow> (error + string) \<times> world" where
  "getValidAccessToken w =
     (case static_token w of
        Some envToken \<Rightarrow> (Inr envToken, w)
      | None \<Rightarrow>
          (case loadTokens w of
             (None, w1) \<Rightarrow> (Inl NotAuthenticated, w1)
           | (Some j, w1) \<Rightarrow>
               (case as_StoredTokens j of
                  None \<Rightarrow> (Inl OutsideDeclaredType, w1)
                | Some tokens \<Rightarrow>
                    (case Date_now w1 of
                       (now1, w2) \<Rightarrow>
                         if expires_at tokens > now1 + TOKEN_EXPIRY_BUFFER_MS
                         then (Inr (access_token tokens), w2)
                         else if refresh_token tokens = []
                         then (Inl AccessTokenExpiredNoRefreshToken, w2)
                         else
                           (case Date_now w2 of
                              (now2, w3) \<Rightarrow>
                                if refresh_token_expires_at tokens < now2
                                then (Inl RefreshTokenExpired, w3)
                                else
                                  (case refreshAccessToken w3 of
                                     (Inl e, w4) \<Rightarrow> (Inl e, w4)
                                   | (Inr nt, w4) \<Rightarrow> (Inr (access_token nt), w4)))))))"

subsection \<open>Notions used to state the properties\<close>

text \<open>
  The credential record on disk: the content of the credential file, where it can be
  read, is JSON and has the shape of a \<open>StoredTokens\<close>.
\<close>

definition stored_record :: "world \<Rightarrow> int StoredTokens option" where
  "stored_record w =
     (case fs_readFileSync w of
        Inl e \<Rightarrow> None
      | Inr data \<Rightarrow> (case JSON_parse data of None \<Rightarrow> None | Some j \<Rightarrow> as_StoredTokens j))"

text \<open>What \<^verbatim>\<open>response.json()\<close> yields for a body, seen as an \<open>OAuthTokenResponse\<close>.\<close>

definition response_data :: "string \<Rightarrow> OAuthTokenResponse option" where
  "response_data body =
     (case JSON_parse body of None \<Rightarrow> None | Some dj \<Rightarrow> as_OAuthTokenResponse dj)"

text \<open>
  The value \<open>j\<close> that \<open>loadTokens\<close> returns is field for field the record \<open>t\<close>: it has the
  shape of a \<open>StoredTokens\<close>, and its five fields are those of \<open>t\<close>.
\<close>

definition field_for_field :: "number StoredTokens \<Rightarrow> json \<Rightarrow> bool" where
  "field_for_field t j =
     (case as_StoredTokens j of None \<Rightarrow> False | Some t' \<Rightarrow> finite_tokens t' = t)"

text \<open>
  What \<^verbatim>\<open>JSON.parse\<close> reads in the text that \<^verbatim>\<open>JSON.stringify\<close> writes for a number and
  for a record (lemma \<open>JSON_parse_stringify\<close> below): \<^verbatim>\<open>null\<close> for \<^verbatim>\<open>NaN\<close> and the
  infinities, the integer itself below \<open>10^21\<close>, and from there its significant digits
  with the count of its trailing zeros as the exponent.
\<close>

fun parsed_number :: "number \<Rightarrow> json" where
  "parsed_number (Finite i) =
     (if \<bar>i\<bar> < 10 ^ 21 then JNum i 0
      else
        (let ds = show_nat (nat \<bar>i\<bar>); sig = strip_zeros ds in
         JNum (if i < 0 then - int (digits_val sig) else int (digits_val sig))
              (int (length ds) - int (length sig))))"
| "parsed_number x = JNull"

definition parsed_tokens :: "number StoredTokens \<Rightarrow> json" where
  "parsed_tokens t =
     JObj [(''access_token'', JStr (access_token t)),
           (''refresh_token'', JStr (refresh_token t)),
           (''expires_at'', parsed_number (expires_at t)),
           (''refresh_token_expires_at'', parsed_number (refresh_token_expires_at t)),
           (''scope'', JStr (scope t))]"

text \<open>The process can read the credential file.\<close>

definition readable :: "world \<Rightarrow> bool" where
  "readable w = (case fs_readFileSync w of Inl e \<Rightarrow> False | Inr data \<Rightarrow> True)"

text \<open>A text that cannot continue a number: it is empty or starts with none of the
  characters that the number grammar accepts after an integer.\<close>

definition num_end :: "string \<Rightarrow> bool" where
  "num_end r =
     (case r of
        [] \<Rightarrow> True
      | c # cs \<Rightarrow> \<not> is_digit c \<and> c \<noteq> CHR ''.'' \<and> c \<noteq> CHR ''e'' \<and> c \<noteq> CHR ''E'')"

text \<open>
  The world after a successful refresh from \<open>w\<close>: three clock readings taken, the
  credential file rewritten in place with the new record \<open>nt\<close>, one answer of the
  endpoint consumed, one request \<open>req\<close> recorded, three diagnostic lines written.
\<close>

definition refreshed_world ::
  "world \<Rightarrow> mode \<Rightarrow> number StoredTokens \<Rightarrow> http_request \<Rightarrow> http_response list \<Rightarrow> world"
  where
  "refreshed_world w fm nt req rest =
     w\<lparr>ticks := Suc (Suc (Suc (ticks w))),
       token_file := Some (fm, JSON_stringify nt),
       responses := rest,
       requests := requests w @ [req],
       stderr := stderr w @ [''[auth] Refreshing access token...'',
                            ''[auth] Tokens saved to '' @ getTokenPath,
                            ''[auth] Access token refreshed successfully.'']\<rparr>"

text \<open>The events that a run of \<open>startOAuthFlow\<close> from \<open>w\<close> adds to the trace.\<close>

definition run_events :: "world \<Rightarrow> event list" where
  "run_events w = drop (length (events w)) (events (snd (startOAuthFlow w)))"

text \<open>
  Every launch of the browser in a trace happens while the listener is ready: after a
  \<open>ListenerReady\<close> with no \<open>ListenerClosed\<close> since. The first argument says whether the
  listener is ready where the trace starts.
\<close>

fun launched_when_ready :: "bool \<Rightarrow> event list \<Rightarrow> bool" where
  "launched_when_ready rdy [] = True"
| "launched_when_ready rdy (ListenerReady p # es) = launched_when_ready True es"
| "launched_when_ready rdy (ListenerClosed # es) = launched_when_ready False es"
| "launched_when_ready rdy (BrowserLaunched u # es) = (rdy \<and> launched_when_ready rdy es)"
| "launched_when_ready rdy (ListenRequested p # es) = launched_when_ready rdy es"
| "launched_when_ready rdy (HttpReply st # es) = launched_when_ready rdy es"

text \<open>
  Every launch of the browser in a trace comes after a call of \<^verbatim>\<open>server.listen\<close>. The
  first argument says whether there was such a call before the trace starts.
\<close>

fun launched_after_listen :: "bool \<Rightarrow> event list \<Rightarrow> bool" where
  "launched_after_listen asked [] = True"
| "launched_after_listen asked (ListenRequested p # es) = launched_after_listen True es"
| "launched_after_listen asked (BrowserLaunched u # es) =
     (asked \<and> launched_after_listen asked es)"
| "launched_after_listen asked (ListenerReady p # es) = launched_after_listen asked es"
| "launched_after_listen asked (ListenerClosed # es) = launched_after_listen asked es"
| "launched_after_listen asked (HttpReply st # es) = launched_after_listen asked es"

text \<open>
  The browser launch never precedes listener readiness: no \<open>ListenerReady\<close> comes after
  a \<open>BrowserLaunched\<close> in the trace. The first argument says whether the browser was
  launched before the trace starts.
\<close>

fun no_ready_after_launch :: "bool \<Rightarrow> event list \<Rightarrow> bool" where
  "no_ready_after_launch launched [] = True"
| "no_ready_after_launch launched (BrowserLaunched u # es) = no_ready_after_launch True es"
| "no_ready_after_launch launched (ListenerReady p # es) =
     (\<not> launched \<and> no_ready_after_launch launched es)"
| "no_ready_after_launch launched (ListenRequested p # es) = no_ready_after_launch launched es"
| "no_ready_after_launch launched (ListenerClosed # es) = no_ready_after_launch launched es"
| "no_ready_after_launch launched (HttpReply st # es) = no_ready_after_launch launched es"

subsection \<open>Concrete worlds\<close>

text \<open>
  A credential file as an earlier refresh or handshake may have left it, an answer of the
  token endpoint, and a world around them: OAuth mode (no static token), umask 0o022,
  the credential directory with mode 0o755 and the file with mode 0o600, and a clock
  that stands at 1700000000000 ms.
\<close>

definition sample_tokens :: "int StoredTokens" where
  "sample_tokens =
     \<lparr>access_token = ''A'', refresh_token = ''R'', expires_at = 1699999999000,
      refresh_token_expires_at = 1701000000000, scope = ''pins:read''\<rparr>"

definition sample_file :: string where
  "sample_file =
     ''{\"access_token\":\"A\",\"refresh_token\":\"R\",\"expires_at\":1699999999000,'' @
     ''\"refresh_token_expires_at\":1701000000000,\"scope\":\"pins:read\"}''"

definition sample_body :: string where
  "sample_body = ''{\"access_token\":\"B\",\"expires_in\":3600}''"

definition sample_world :: world where
  "sample_world =
     \<lparr>env_PINTEREST_ACCESS_TOKEN = None,
      env_PINTEREST_APP_ID = Some ''app'',
      env_PINTEREST_APP_SECRET = Some ''secret'',
      clock = (\<lambda>n. 1700000000000),
      ticks = 0,
      umask = 0x12,
      home_writable = True,
      token_dir = Directory 0x1ED,
      token_file = Some (0x180, sample_file),
      responses = [Response 200 sample_body],
      requests = [],
      stderr = [],
      port_free = True,
      browser_opens = True,
      random_uuid = ''8d8ac610-566d-4ef0-9c22-186b2a5ed793'',
      callbacks = [],
      events = []\<rparr>"

text \<open>The same credential file with a refresh expiry of 0.\<close>

definition sample_file_zero :: string where
  "sample_file_zero =
     ''{\"access_token\":\"A\",\"refresh_token\":\"R\",\"expires_at\":1699999999000,'' @
     ''\"refresh_token_expires_at\":0,\"scope\":\"pins:read\"}''"

definition zero_world :: world where
  "zero_world = sample_world\<lparr>token_file := Some (0x180, sample_file_zero)\<rparr>"







text \<open>
  A world without the credential directory, and the same world after \<open>sample_tokens\<close>
  has been saved in it.
\<close>

definition fresh_world :: world where
  "fresh_world = sample_world\<lparr>token_dir := NoEntry, token_file := None\<rparr>"

definition saved_world :: world where
  "saved_world =
     fresh_world\<lparr>token_dir := Directory 0x1ED,
                  token_file := Some (0x180, JSON_stringify (finite_tokens sample_tokens)),
                  stderr := [''[auth] Tokens saved to ~/.mcp-credentials/pinterest-tokens.json'']\<rparr>"

text \<open>The sample world with another credential file, or none.\<close>

definition file_world :: "(mode \<times> string) option \<Rightarrow> world" where
  "file_world f = sample_world\<lparr>token_file := f\<rparr>"

text \<open>
  A record as \<open>refreshAccessToken\<close> builds it from an answer without \<^verbatim>\<open>expires_in\<close>: the
  access expiry is \<^verbatim>\<open>NaN\<close>.
\<close>

definition nan_tokens :: "number StoredTokens" where
  "nan_tokens =
     \<lparr>access_token = ''A'', refresh_token = ''R'', expires_at = NaN,
      refresh_token_expires_at = Finite 1701000000000, scope = ''pins:read''\<rparr>"

text \<open>
  A world in which the handshake goes through: no credential directory yet, the callback
  port free, a stray request to the listener and then the redirect of the authorization
  server with the code and the right \<^verbatim>\<open>state\<close>, and the endpoint's answer to the exchange.
  \<open>busy_world\<close> is the same world with the callback port in use.
\<close>

definition exchange_body :: string where
  "exchange_body =
     ''{\"access_token\":\"A\",\"refresh_token\":\"R\",\"expires_in\":3600,'' @
     ''\"refresh_token_expires_at\":1701000000,\"scope\":\"pins:read\"}''"

definition handshake_world :: world where
  "handshake_world =
     fresh_world\<lparr>responses := [Response 200 exchange_body],
                  callbacks :=
                    [\<lparr>cb_pathname = ''/favicon.ico'', cb_code = None, cb_state = None\<rparr>,
                     \<lparr>cb_pathname = ''/callback'', cb_code = Some ''CODE'',
                      cb_state = Some ''8d8ac610-566d-4ef0-9c22-186b2a5ed793''\<rparr>]\<rparr>"

definition busy_world :: world where
  "busy_world = handshake_world\<lparr>port_free := False\<rparr>"

section \<open>The JSON text of a record parses back to the record\<close>

lemma hex_val_hex_digit: "m < 16 \<Longrightarrow> hex_val (hex_digit m) = Some m"
proof -
  assume "m < 16"
  then have "m \<in> set [0..<16]" by simp
  then show ?thesis
    by (auto simp add: hex_digit_def hex_val_def upt_rec)
qed

lemma digit_val_digit_char: "d < 10 \<Longrightarrow> digit_val (digit_char d) = d \<and> is_digit (digit_char d)"
proof -
  assume "d < 10"
  then have "d \<in> set [0..<10]" by simp
  then show ?thesis
    by (auto simp add: digit_char_def digit_val_def is_digit_def upt_rec)
qed

lemma escape_ctrl:
  assumes "(of_char c :: nat) < 32"
  shows "hex4 (CHR ''0'') (CHR ''0'') (hex_digit (of_char c div 16)) (hex_digit (of_char c mod 16))
           = Some (of_char c)"
proof -
  have a: "(of_char c :: nat) div 16 < 16" using assms by simp
  have b: "(of_char c :: nat) mod 16 < 16" by simp
  show ?thesis
    using hex_val_hex_digit[OF a] hex_val_hex_digit[OF b]
    by (simp add: hex4_def hex_val_def)
qed

text \<open>One escaped character is read back as that character.\<close>

lemma parse_chars_escape_char:
  "parse_chars (escape_char c @ rest) =
     (case parse_chars rest of None \<Rightarrow> None | Some (s, r) \<Rightarrow> Some (c # s, r))"
proof (cases "(of_char c :: nat) < 32")
  case True
  then show ?thesis
    using escape_ctrl[OF True]
    by (auto simp add: escape_char_def unescape_def utf8_unit_def split: option.splits)
next
  case False
  then show ?thesis
    by (auto simp add: escape_char_def unescape_def split: option.splits)
qed

lemma parse_chars_escape:
  "parse_chars (concat (map escape_char s) @ DQ # rest) = Some (s, rest)"
  by (induction s) (simp_all add: parse_chars_escape_char)

lemma show_nat_digits: "\<forall>c \<in> set (show_nat n). is_digit c"
proof (induction n rule: show_nat.induct)
  case (1 n)
  show ?case
  proof (cases "n < 10")
    case True
    then show ?thesis
      using digit_val_digit_char[of n] by (subst show_nat.simps) simp
  next
    case False
    then show ?thesis
      using 1 digit_val_digit_char[of "n mod 10"] by (subst show_nat.simps) auto
  qed
qed

lemma show_nat_ne: "show_nat n \<noteq> []"
  by (subst show_nat.simps) simp

lemma digits_val_snoc: "digits_val (ds @ [c]) = 10 * digits_val ds + digit_val c"
  by (simp add: digits_val_def)

lemma digits_val_show_nat: "digits_val (show_nat n) = n"
proof (induction n rule: show_nat.induct)
  case (1 n)
  show ?case
  proof (cases "n < 10")
    case True
    then show ?thesis
      using digit_val_digit_char[of n]
      by (subst show_nat.simps) (simp add: digits_val_def)
  next
    case False
    then show ?thesis
      using 1 digit_val_digit_char[of "n mod 10"]
      by (subst show_nat.simps) (simp add: digits_val_snoc)
  qed
qed

text \<open>No leading zero, except for zero itself.\<close>

lemma hd_show_nat: "0 < n \<Longrightarrow> hd (show_nat n) \<noteq> CHR ''0''"
proof (induction n rule: show_nat.induct)
  case (1 n)
  show ?case
  proof (cases "n < 10")
    case True
    with 1(2) have "n \<in> set [1..<10]" by simp
    then show ?thesis
      by (subst show_nat.simps) (auto simp add: digit_char_def upt_rec)
  next
    case False
    then have "0 < n div 10" by simp
    with 1(1) False have "hd (show_nat (n div 10)) \<noteq> CHR ''0''" by simp
    then show ?thesis
      using False show_nat_ne[of "n div 10"] by (subst show_nat.simps) simp
  qed
qed

lemma takeWhile_digits: "num_end r \<Longrightarrow> takeWhile is_digit (show_nat n @ r) = show_nat n"
  using show_nat_digits[of n]
  by (cases r) (auto simp add: num_end_def takeWhile_append2 intro: takeWhile_eq_all_conv[THEN iffD2])

lemma dropWhile_digits: "num_end r \<Longrightarrow> dropWhile is_digit (show_nat n @ r) = r"
  using show_nat_digits[of n]
  by (cases r) (auto simp add: num_end_def dropWhile_append2)

lemma parse_int_part_show_nat:
  assumes "num_end r"
  shows "parse_int_part (show_nat n @ r) = Some (show_nat n, r)"
proof (cases "n = 0")
  case True
  then show ?thesis
    by (subst (1 2) show_nat.simps) (simp add: parse_int_part_def digit_char_def)
next
  case False
  obtain c cs where cs: "show_nat n = c # cs"
    using show_nat_ne[of n] by (cases "show_nat n") auto
  have "c \<noteq> CHR ''0''" using hd_show_nat[of n] False cs by simp
  moreover have "is_digit c" using show_nat_digits[of n] cs by simp
  moreover have "takeWhile is_digit (cs @ r) = cs" "dropWhile is_digit (cs @ r) = r"
    using takeWhile_digits[OF assms, of n] dropWhile_digits[OF assms, of n] \<open>is_digit c\<close> cs
    by simp_all
  ultimately show ?thesis by (simp add: parse_int_part_def cs)
qed

lemma parse_frac_end: "num_end r \<Longrightarrow> parse_frac r = Some ([], r)"
  by (cases r) (simp_all add: num_end_def parse_frac_def)

lemma parse_exp_end: "num_end r \<Longrightarrow> parse_exp r = Some (0, r)"
  by (cases r) (simp_all add: num_end_def parse_exp_def)

lemma not_digit_minus: "\<not> is_digit (CHR ''-'')"
  by (simp add: is_digit_def)

lemma parse_number_show_nat:
  assumes "num_end r"
  shows "parse_number (show_nat n @ r) = Some (JNum (int n) 0, r)"
proof -
  obtain c cs where cs: "show_nat n = c # cs"
    using show_nat_ne[of n] by (cases "show_nat n") auto
  have "is_digit c" using show_nat_digits[of n] cs by simp
  then have "c \<noteq> CHR ''-''" using not_digit_minus by auto
  then have "parse_number (show_nat n @ r) =
      (case parse_int_part (show_nat n @ r) of None \<Rightarrow> None
       | Some (ip, s2) \<Rightarrow>
          (case parse_frac s2 of None \<Rightarrow> None
           | Some (fp, s3) \<Rightarrow>
              (case parse_exp s3 of None \<Rightarrow> None
               | Some (e, s4) \<Rightarrow>
                   Some (JNum (int (digits_val (ip @ fp))) (e - int (length fp)), s4))))"
    by (simp add: parse_number_def cs split: option.splits)
  then show ?thesis
    by (simp add: parse_int_part_show_nat[OF assms] parse_frac_end[OF assms]
        parse_exp_end[OF assms] digits_val_show_nat)
qed

lemma parse_number_show_int:
  assumes "num_end r"
  shows "parse_number (show_int i @ r) = Some (JNum i 0, r)"
proof (cases "i < 0")
  case True
  then show ?thesis
    by (simp add: show_int_def parse_number_def parse_int_part_show_nat[OF assms]
        parse_frac_end[OF assms] parse_exp_end[OF assms] digits_val_show_nat)
next
  case False
  then show ?thesis
    using parse_number_show_nat[OF assms, of "nat i"] by (simp add: show_int_def)
qed

lemma show_int_head:
  "\<exists>c cs. show_int i = c # cs \<and> (is_digit c \<or> c = CHR ''-'')"
proof -
  obtain c cs where cs: "show_nat (nat \<bar>i\<bar>) = c # cs"
    using show_nat_ne[of "nat \<bar>i\<bar>"] by (cases "show_nat (nat \<bar>i\<bar>)") auto
  have "is_digit c" using show_nat_digits[of "nat \<bar>i\<bar>"] cs by simp
  then show ?thesis using cs by (cases "i < 0") (auto simp add: show_int_def abs_if)
qed

lemma parse_value_show_int:
  assumes "num_end r"
  shows "parse_value (Suc n) (show_int i @ r) = Some (JNum i 0, r)"
proof -
  obtain c cs where cs: "show_int i = c # cs" and c: "is_digit c \<or> c = CHR ''-''"
    using show_int_head by blast
  from c have "\<not> is_ws c" "c \<noteq> CHR ''{''" "c \<noteq> CHR ''[''" "c \<noteq> DQ"
      "c \<noteq> CHR ''t''" "c \<noteq> CHR ''f''" "c \<noteq> CHR ''n''"
    by (auto simp add: is_digit_def is_ws_def)
  then have "parse_value (Suc n) (show_int i @ r) = parse_number (show_int i @ r)"
    by (simp add: cs skip_ws_def)
  then show ?thesis by (simp add: parse_number_show_int[OF assms])
qed

text \<open>Exponent notation: the significant digits and the exponent give the integer back.\<close>

lemma takeWhile_zeros:
  "takeWhile (\<lambda>c. c = CHR ''0'') xs = replicate (length (takeWhile (\<lambda>c. c = CHR ''0'') xs)) (CHR ''0'')"
  by (induction xs) simp_all

lemma strip_zeros_append:
  "strip_zeros ds @ replicate (length ds - length (strip_zeros ds)) (CHR ''0'') = ds"
proof -
  let ?P = "\<lambda>c. c = CHR ''0''"
  let ?k = "length (takeWhile ?P (rev ds))"
  have "length (takeWhile ?P (rev ds)) + length (dropWhile ?P (rev ds)) = length (rev ds)"
    by (simp only: length_append[symmetric] takeWhile_dropWhile_id)
  then have l: "length ds = ?k + length (strip_zeros ds)"
    by (simp add: strip_zeros_def)
  have "rev ds = takeWhile ?P (rev ds) @ dropWhile ?P (rev ds)" by simp
  then have "rev ds = replicate ?k (CHR ''0'') @ dropWhile ?P (rev ds)"
    using takeWhile_zeros[of "rev ds"] by simp
  then have "rev (rev ds) = rev (replicate ?k (CHR ''0'') @ dropWhile ?P (rev ds))"
    by (rule arg_cong)
  then have "ds = strip_zeros ds @ replicate ?k (CHR ''0'')"
    by (simp add: strip_zeros_def)
  then show ?thesis using l by simp
qed

lemma digits_val_zeros: "digits_val (xs @ replicate k (CHR ''0'')) = digits_val xs * 10 ^ k"
proof (induction k)
  case 0
  show ?case by simp
next
  case (Suc k)
  have "xs @ replicate (Suc k) (CHR ''0'') = (xs @ replicate k (CHR ''0'')) @ [CHR ''0'']"
    by (simp add: replicate_append_same)
  then have "digits_val (xs @ replicate (Suc k) (CHR ''0'')) =
      10 * digits_val (xs @ replicate k (CHR ''0'')) + digit_val (CHR ''0'')"
    by (simp only: digits_val_snoc)
  then show ?case using Suc by (simp add: digit_val_def)
qed

lemma strip_zeros_value:
  "digits_val (strip_zeros ds) * 10 ^ (length ds - length (strip_zeros ds)) = digits_val ds"
  using digits_val_zeros[of "strip_zeros ds" "length ds - length (strip_zeros ds)"]
  by (simp add: strip_zeros_append)

lemma strip_zeros_Cons:
  assumes "c \<noteq> CHR ''0''"
  shows "\<exists>cs'. strip_zeros (c # cs) = c # cs'"
proof -
  let ?P = "\<lambda>c. c = CHR ''0''"
  have "dropWhile ?P (rev cs @ [c]) = dropWhile ?P (rev cs) @ [c]"
    using assms by (simp add: dropWhile_append3)
  then show ?thesis by (simp add: strip_zeros_def)
qed

lemma strip_zeros_digits: "\<forall>c \<in> set ds. is_digit c \<Longrightarrow> \<forall>c \<in> set (strip_zeros ds). is_digit c"
  by (auto simp add: strip_zeros_def dest: set_dropWhileD)

lemma strip_zeros_length: "length (strip_zeros ds) \<le> length ds"
  by (simp add: strip_zeros_def length_dropWhile_le[of _ "rev ds", simplified])

lemma strip_zeros_show_nat:
  assumes "0 < n"
  obtains c cs where "strip_zeros (show_nat n) = c # cs" "c \<noteq> CHR ''0''" "is_digit c"
    "\<forall>d \<in> set cs. is_digit d"
proof -
  obtain c0 cs0 where cs: "show_nat n = c0 # cs0"
    using show_nat_ne[of n] by (cases "show_nat n") auto
  have nz: "c0 \<noteq> CHR ''0''" using hd_show_nat[OF assms] cs by simp
  obtain cs' where s: "strip_zeros (show_nat n) = c0 # cs'"
    using strip_zeros_Cons[OF nz, of cs0] cs by auto
  have "\<forall>d \<in> set (strip_zeros (show_nat n)). is_digit d"
    by (rule strip_zeros_digits) (rule show_nat_digits)
  then have "is_digit c0" "\<forall>d \<in> set cs'. is_digit d" using s by simp_all
  then show ?thesis using that s nz by blast
qed

lemma takeWhile_digits_stop:
  assumes "\<forall>d \<in> set ds. is_digit d" "\<not> is_digit c"
  shows "takeWhile is_digit (ds @ c # r) = ds" "dropWhile is_digit (ds @ c # r) = c # r"
  using assms by (simp_all add: takeWhile_append2 dropWhile_append2 takeWhile_eq_all_conv[THEN iffD2])

lemma parse_exp_show_nat:
  assumes "num_end r"
  shows "parse_exp (CHR ''e'' # CHR ''+'' # show_nat m @ r) = Some (int m, r)"
  using takeWhile_digits[OF assms, of m] dropWhile_digits[OF assms, of m] show_nat_ne[of m]
  by (simp add: parse_exp_def parse_sign_def digits_val_show_nat)

lemma parse_int_frac_exp:
  assumes "0 < n" "num_end r"
  shows "\<exists>ip fp s2 s3.
           parse_int_part (show_exp n @ r) = Some (ip, s2)
         \<and> parse_frac s2 = Some (fp, s3)
         \<and> parse_exp s3 = Some (int (length (show_nat n)) - 1, r)
         \<and> ip @ fp = strip_zeros (show_nat n) \<and> length ip = 1"
proof -
  obtain c cs where s: "strip_zeros (show_nat n) = c # cs" and nz: "c \<noteq> CHR ''0''"
    and dc: "is_digit c" and dcs: "\<forall>d \<in> set cs. is_digit d"
    using strip_zeros_show_nat[OF assms(1)] by blast
  let ?e = "CHR ''e'' # CHR ''+'' # show_nat (length (show_nat n) - 1) @ r"
  have ne: "\<not> is_digit (CHR ''e'')" "\<not> is_digit (CHR ''.'')" by (simp_all add: is_digit_def)
  have len: "int (length (show_nat n) - 1) = int (length (show_nat n)) - 1"
    using show_nat_ne[of n] by (cases "show_nat n") simp_all
  have pe: "parse_exp ?e = Some (int (length (show_nat n)) - 1, r)"
    using parse_exp_show_nat[OF assms(2), of "length (show_nat n) - 1"] len by simp
  show ?thesis
  proof (cases "cs = []")
    case True
    then have "show_exp n @ r = c # ?e" by (simp add: show_exp_def Let_def s)
    then have "parse_int_part (show_exp n @ r) = Some ([c], ?e)"
      using nz dc ne by (simp add: parse_int_part_def)
    moreover have "parse_frac ?e = Some ([], ?e)" by (simp add: parse_frac_def)
    ultimately show ?thesis using pe s True by simp
  next
    case False
    then have t: "show_exp n @ r = c # CHR ''.'' # cs @ ?e" by (simp add: show_exp_def Let_def s)
    have "parse_int_part (show_exp n @ r) = Some ([c], CHR ''.'' # cs @ ?e)"
      unfolding t using nz dc ne by (simp add: parse_int_part_def)
    moreover have "parse_frac (CHR ''.'' # cs @ ?e) = Some (cs, ?e)"
      using takeWhile_digits_stop[OF dcs ne(1)] False by (simp add: parse_frac_def)
    ultimately show ?thesis using pe s by simp
  qed
qed

lemma show_exp_head:
  assumes "0 < n"
  shows "\<exists>c cs. show_exp n = c # cs \<and> is_digit c"
proof -
  obtain c cs where "strip_zeros (show_nat n) = c # cs" "is_digit c"
    using strip_zeros_show_nat[OF assms] by blast
  then show ?thesis by (simp add: show_exp_def Let_def)
qed

lemma parse_number_show_exp:
  assumes "0 < n" "num_end r"
  shows "parse_number (show_exp n @ r) =
           Some (JNum (int (digits_val (strip_zeros (show_nat n))))
                      (int (length (show_nat n)) - int (length (strip_zeros (show_nat n)))), r)"
    and "parse_number (CHR ''-'' # show_exp n @ r) =
           Some (JNum (- int (digits_val (strip_zeros (show_nat n))))
                      (int (length (show_nat n)) - int (length (strip_zeros (show_nat n)))), r)"
proof -
  obtain ip fp s2 s3 where p: "parse_int_part (show_exp n @ r) = Some (ip, s2)"
    "parse_frac s2 = Some (fp, s3)"
    "parse_exp s3 = Some (int (length (show_nat n)) - 1, r)"
    "ip @ fp = strip_zeros (show_nat n)" "length ip = 1"
    using parse_int_frac_exp[OF assms] by blast
  obtain c cs where h: "show_exp n = c # cs" "is_digit c"
    using show_exp_head[OF assms(1)] by blast
  then have nm: "c \<noteq> CHR ''-''" using not_digit_minus by auto
  have "length (ip @ fp) = length (strip_zeros (show_nat n))" using p(4) by simp
  then have l: "int (length fp) = int (length (strip_zeros (show_nat n))) - 1"
    using p(5) by simp
  have "parse_number (c # cs @ r) =
           Some (JNum (int (digits_val (strip_zeros (show_nat n))))
                      (int (length (show_nat n)) - int (length (strip_zeros (show_nat n)))), r)"
    using p[unfolded h] nm l by (simp add: parse_number_def)
  then show "parse_number (show_exp n @ r) =
           Some (JNum (int (digits_val (strip_zeros (show_nat n))))
                      (int (length (show_nat n)) - int (length (strip_zeros (show_nat n)))), r)"
    by (simp add: h)
  show "parse_number (CHR ''-'' # show_exp n @ r) =
           Some (JNum (- int (digits_val (strip_zeros (show_nat n))))
                      (int (length (show_nat n)) - int (length (strip_zeros (show_nat n)))), r)"
    using p l by (simp add: parse_number_def)
qed

lemma stringify_number_head:
  "\<exists>c cs. stringify_number x = c # cs \<and> (is_digit c \<or> c = CHR ''-'' \<or> c = CHR ''n'')"
proof (cases x)
  case (Finite i)
  show ?thesis
  proof (cases "\<bar>i\<bar> < 10 ^ 21")
    case True
    then show ?thesis using show_int_head[of i] Finite by auto
  next
    case False
    then have "0 < nat \<bar>i\<bar>" by simp
    then obtain c cs where "show_exp (nat \<bar>i\<bar>) = c # cs" "is_digit c"
      using show_exp_head by blast
    then show ?thesis using False Finite by (cases "i < 0") (auto simp add: abs_if)
  qed
qed simp_all

lemma parse_number_stringify:
  assumes "num_end r"
  shows "parse_number (stringify_number (Finite i) @ r) = Some (parsed_number (Finite i), r)"
proof (cases "\<bar>i\<bar> < 10 ^ 21")
  case True
  then show ?thesis using parse_number_show_int[OF assms, of i] by simp
next
  case False
  then have pos: "0 < nat \<bar>i\<bar>" by simp
  show ?thesis
  proof (cases "i < 0")
    case True
    then have "nat (- i) = nat \<bar>i\<bar>" by simp
    then show ?thesis
      using parse_number_show_exp(2)[OF pos assms] False True by (simp add: Let_def)
  next
    case nn: False
    then have "nat i = nat \<bar>i\<bar>" by simp
    then show ?thesis
      using parse_number_show_exp(1)[OF pos assms] False nn by (simp add: Let_def)
  qed
qed

lemma parse_value_stringify_number:
  assumes "num_end r"
  shows "parse_value (Suc n) (stringify_number x @ r) = Some (parsed_number x, r)"
proof (cases x)
  case (Finite i)
  obtain c cs where cs: "stringify_number x = c # cs"
    and c: "is_digit c \<or> c = CHR ''-'' \<or> c = CHR ''n''"
    using stringify_number_head by blast
  have "c \<noteq> CHR ''n''"
  proof (cases "\<bar>i\<bar> < 10 ^ 21")
    case True
    then show ?thesis using show_int_head[of i] cs Finite by (auto simp add: is_digit_def)
  next
    case False
    then have "0 < nat \<bar>i\<bar>" by simp
    then obtain c' cs' where "show_exp (nat \<bar>i\<bar>) = c' # cs'" "is_digit c'"
      using show_exp_head by blast
    then show ?thesis using False Finite cs
      by (cases "i < 0") (auto simp add: abs_if is_digit_def)
  qed
  with c have "\<not> is_ws c" "c \<noteq> CHR ''{''" "c \<noteq> CHR ''[''" "c \<noteq> DQ"
      "c \<noteq> CHR ''t''" "c \<noteq> CHR ''f''" "c \<noteq> CHR ''n''"
    by (auto simp add: is_digit_def is_ws_def)
  then have "parse_value (Suc n) (stringify_number x @ r) = parse_number (stringify_number x @ r)"
    by (simp add: cs skip_ws_def)
  then show ?thesis using parse_number_stringify[OF assms, of i] Finite by simp
qed (simp_all add: skip_ws_def is_ws_def match_lit_def)

lemma num_int_parsed_number: "num_int (parsed_number (Finite i)) = Some i"
proof (cases "\<bar>i\<bar> < 10 ^ 21")
  case True
  then show ?thesis by simp
next
  case False
  let ?ds = "show_nat (nat \<bar>i\<bar>)"
  have le: "length (strip_zeros ?ds) \<le> length ?ds" by (rule strip_zeros_length)
  have "digits_val (strip_zeros ?ds) * 10 ^ (length ?ds - length (strip_zeros ?ds)) = nat \<bar>i\<bar>"
    by (simp add: strip_zeros_value digits_val_show_nat)
  then have v: "int (digits_val (strip_zeros ?ds)) * 10 ^ (length ?ds - length (strip_zeros ?ds))
      = \<bar>i\<bar>"
    by (metis of_nat_mult of_nat_power of_nat_numeral nat_0_le abs_ge_zero)
  have e: "nat (int (length ?ds) - int (length (strip_zeros ?ds)))
      = length ?ds - length (strip_zeros ?ds)"
    using le by (metis nat_int of_nat_diff)
  show ?thesis
    using False le v e by (cases "i < 0") (simp_all add: Let_def)
qed

lemma parse_value_ws: "is_ws c \<Longrightarrow> parse_value (Suc n) (c # s) = parse_value (Suc n) s"
  by (simp add: skip_ws_def)

lemma parse_value_string:
  "parse_value (Suc n) (DQ # concat (map escape_char s) @ DQ # r) = Some (JStr s, r)"
  by (simp add: skip_ws_def is_ws_def parse_chars_escape)

lemma JSON_quote_keys:
  "JSON_quote ''access_token'' = DQ # ''access_token'' @ [DQ]"
  "JSON_quote ''refresh_token'' = DQ # ''refresh_token'' @ [DQ]"
  "JSON_quote ''expires_at'' = DQ # ''expires_at'' @ [DQ]"
  "JSON_quote ''refresh_token_expires_at'' = DQ # ''refresh_token_expires_at'' @ [DQ]"
  "JSON_quote ''scope'' = DQ # ''scope'' @ [DQ]"
  by (simp_all add: JSON_quote_def escape_char_def)

lemma parse_value_stringify:
  "parse_value (Suc (Suc (Suc (Suc (Suc (Suc (Suc n))))))) (JSON_stringify t @ r) =
     Some (parsed_tokens t, r)"
  unfolding JSON_stringify_def JSON_quote_keys
  apply (subst parse_value.simps(2))
  apply (simp del: parse_value.simps
      add: JSON_quote_def skip_ws_def is_ws_def
        parse_value_ws parse_value_string parse_value_stringify_number num_end_def
        is_digit_def parsed_tokens_def)
  done

lemma stringify_number_ne: "stringify_number x \<noteq> []"
  using stringify_number_head[of x] by auto

lemma JSON_parse_stringify: "JSON_parse (JSON_stringify t) = Some (parsed_tokens t)"
proof -
  have "3 \<le> length (JSON_stringify t)"
    by (simp add: JSON_stringify_def)
  then have "\<exists>n. 2 * length (JSON_stringify t) + 2 = Suc (Suc (Suc (Suc (Suc (Suc (Suc n))))))"
    by presburger
  then obtain n where
    n: "2 * length (JSON_stringify t) + 2 = Suc (Suc (Suc (Suc (Suc (Suc (Suc n))))))"
    by blast
  show ?thesis
    unfolding JSON_parse_def n
    using parse_value_stringify[of n t "[]"]
    by (simp add: skip_ws_def del: parse_value.simps)
qed

lemma as_StoredTokens_json_of_tokens: "as_StoredTokens (json_of_tokens t) = Some t"
  by (simp add: as_StoredTokens_def json_of_tokens_def str_field_def int_field_def own_prop_def)

text \<open>A record with finite expiries comes back as it was; one without does not come back.\<close>

lemma as_StoredTokens_parsed_tokens:
  "as_StoredTokens (parsed_tokens (finite_tokens t)) = Some t"
  by (simp del: parsed_number.simps
      add: as_StoredTokens_def parsed_tokens_def finite_tokens_def str_field_def int_field_def
        own_prop_def num_int_parsed_number)

lemma finite_tokens_inj: "finite_tokens a = finite_tokens b \<Longrightarrow> a = b"
  by (cases a, cases b) (simp add: finite_tokens_def)

lemma finite_tokensI:
  assumes "isFinite (expires_at t)" "isFinite (refresh_token_expires_at t)"
  obtains t0 where "t = finite_tokens t0"
proof -
  obtain e where e: "expires_at t = Finite e"
    using assms(1) by (cases "expires_at t") simp_all
  obtain re where re: "refresh_token_expires_at t = Finite re"
    using assms(2) by (cases "refresh_token_expires_at t") simp_all
  have "t = finite_tokens \<lparr>access_token = access_token t, refresh_token = refresh_token t,
      expires_at = e, refresh_token_expires_at = re, scope = scope t\<rparr>"
    using e re by (simp add: finite_tokens_def)
  then show ?thesis using that by blast
qed

lemma as_StoredTokens_not_finite:
  assumes "\<not> isFinite (expires_at t) \<or> \<not> isFinite (refresh_token_expires_at t)"
  shows "as_StoredTokens (parsed_tokens t) = None"
proof -
  have n: "\<not> isFinite x \<Longrightarrow> num_int (parsed_number x) = None" for x
    by (cases x) simp_all
  show ?thesis
    using assms n[of "expires_at t"] n[of "refresh_token_expires_at t"]
    by (auto simp del: parsed_number.simps
        simp add: as_StoredTokens_def parsed_tokens_def str_field_def int_field_def own_prop_def
        split: option.splits)
qed

lemma parsed_tokens_small:
  assumes "\<bar>expires_at t\<bar> < 10 ^ 21" "\<bar>refresh_token_expires_at t\<bar> < 10 ^ 21"
  shows "parsed_tokens (finite_tokens t) = json_of_tokens t"
  using assms by (simp add: parsed_tokens_def finite_tokens_def json_of_tokens_def)

section \<open>The parser never runs out of fuel\<close>

lemma skip_ws_length: "length (skip_ws s) \<le> length s"
  by (simp add: skip_ws_def length_dropWhile_le)

lemma skip_ws_Cons_length: "skip_ws s = c # cs \<Longrightarrow> length cs < length s"
  using skip_ws_length[of s] by simp

lemma parse_chars_length: "parse_chars cs = Some (s, r) \<Longrightarrow> length r \<le> length cs"
proof (induction cs arbitrary: s r rule: parse_chars.induct)
  case 1
  then show ?case by simp
next
  case (2 c cs)
  then show ?case
    by (auto split: if_splits list.splits option.splits) fastforce+
qed

lemma dropWhile_length_Cons: "length (dropWhile P cs) \<le> Suc (length cs)"
  using length_dropWhile_le[of P cs] by simp

lemma parse_int_part_length: "parse_int_part s = Some (ip, r) \<Longrightarrow> length r \<le> length s"
  by (auto simp add: parse_int_part_def dropWhile_length_Cons split: list.splits if_splits)

lemma parse_frac_length: "parse_frac s = Some (fp, r) \<Longrightarrow> length r \<le> length s"
  by (auto simp add: parse_frac_def dropWhile_length_Cons split: list.splits if_splits)

lemma parse_sign_length: "parse_sign s = (b, r) \<Longrightarrow> length r \<le> length s"
  by (auto simp add: parse_sign_def split: list.splits if_splits)

lemma parse_exp_length: "parse_exp s = Some (e, r) \<Longrightarrow> length r \<le> length s"
proof (cases s)
  case Nil
  then show "parse_exp s = Some (e, r) \<Longrightarrow> length r \<le> length s"
    by (simp add: parse_exp_def)
next
  case (Cons c cs)
  assume a: "parse_exp s = Some (e, r)"
  obtain b ds where p: "parse_sign cs = (b, ds)" by (cases "parse_sign cs")
  have "length (dropWhile is_digit ds) \<le> length cs"
    using parse_sign_length[OF p] length_dropWhile_le[of is_digit ds] by simp
  then show "length r \<le> length s"
    using a Cons p by (auto simp add: parse_exp_def split: if_splits)
qed

lemma parse_number_length: "parse_number s = Some (v, r) \<Longrightarrow> length r \<le> length s"
proof -
  assume a: "parse_number s = Some (v, r)"
  obtain neg s1 where s1: "(case s of [] \<Rightarrow> (False, [])
            | c # cs \<Rightarrow> if c = CHR ''-'' then (True, cs) else (False, s)) = (neg, s1)"
    by (cases "(case s of [] \<Rightarrow> (False, [])
            | c # cs \<Rightarrow> if c = CHR ''-'' then (True, cs) else (False, s))")
  then have l1: "length s1 \<le> length s"
    by (auto split: list.splits if_splits)
  from a s1 obtain ip s2 fp s3 e where
    "parse_int_part s1 = Some (ip, s2)" "parse_frac s2 = Some (fp, s3)"
    "parse_exp s3 = Some (e, r)"
    by (auto simp add: parse_number_def split: option.splits)
  then show ?thesis
    using l1 parse_int_part_length parse_frac_length parse_exp_length
    by (meson order_trans)
qed

lemma match_lit_length: "match_lit l s = Some r \<Longrightarrow> length r \<le> length s"
  by (auto simp add: match_lit_def split: if_splits)


lemma parse_length:
  "(parse_value n s = Some (v, r) \<longrightarrow> length r \<le> length s)
   \<and> (parse_elements n s = Some (vs, r) \<longrightarrow> length r \<le> length s)
   \<and> (parse_members n s = Some (kvs, r) \<longrightarrow> length r \<le> length s)"
proof (induction n arbitrary: s v vs kvs r)
  case 0
  show ?case by simp
next
  case (Suc n)
  have V: "length r' \<le> length s'" if "parse_value n s' = Some (v', r')" for s' v' r'
    using Suc[of s' v' r'] that by simp
  have E: "length r' \<le> length s'" if "parse_elements n s' = Some (vs', r')" for s' vs' r'
    using Suc[of s' _ r' vs'] that by simp
  have M: "length r' \<le> length s'" if "parse_members n s' = Some (kvs', r')" for s' kvs' r'
    using Suc[of s' _ r' _ kvs'] that by simp
  have v: "length r \<le> length s" if a: "parse_value (Suc n) s = Some (v, r)"
  proof (cases "skip_ws s")
    case Nil
    with a show ?thesis by simp
  next
    case (Cons c cs)
    note l = skip_ws_Cons_length[OF Cons]
    show ?thesis
    proof (cases "skip_ws cs")
      case Nil
      with a Cons l show ?thesis
        using parse_chars_length[of cs] match_lit_length[of _ cs] parse_number_length[of "c # cs" v r]
        by (auto split: if_splits option.splits) (fastforce+)?
    next
      case Cons2: (Cons d ds)
      note l2 = skip_ws_Cons_length[OF Cons2]
      with a Cons Cons2 l show ?thesis
        using parse_chars_length[of cs] match_lit_length[of _ cs] parse_number_length[of "c # cs" v r]
          M[of "d # ds"] E[of "d # ds"]
        by (auto split: if_splits option.splits) (fastforce+)?
    qed
  qed
  have e: "length r \<le> length s" if a: "parse_elements (Suc n) s = Some (vs, r)"
  proof -
    from a obtain v1 r1 where p: "parse_value n s = Some (v1, r1)"
      by (auto split: option.splits)
    note l1 = V[OF p]
    show ?thesis
    proof (cases "skip_ws r1")
      case Nil
      with a p show ?thesis by simp
    next
      case (Cons c cs)
      note l2 = skip_ws_Cons_length[OF Cons]
      with a p Cons l1 show ?thesis
        using E[of cs]
        by (auto split: if_splits option.splits) (fastforce+)?
    qed
  qed
  have m: "length r \<le> length s" if a: "parse_members (Suc n) s = Some (kvs, r)"
  proof -
    from a obtain q cs where s1: "skip_ws s = q # cs"
      by (cases "skip_ws s") auto
    note l1 = skip_ws_Cons_length[OF s1]
    from a s1 obtain k r0 where pc: "parse_chars cs = Some (k, r0)"
      by (auto split: if_splits option.splits)
    note l2 = parse_chars_length[OF pc]
    from a s1 pc obtain c r1 where s2: "skip_ws r0 = c # r1"
      by (cases "skip_ws r0") (auto split: if_splits)
    note l3 = skip_ws_Cons_length[OF s2]
    from a s1 pc s2 obtain v1 r2 where pv: "parse_value n r1 = Some (v1, r2)"
      by (auto split: if_splits option.splits)
    note l4 = V[OF pv]
    from a s1 pc s2 pv obtain d r3 where s3: "skip_ws r2 = d # r3"
      by (cases "skip_ws r2") (auto split: if_splits)
    note l5 = skip_ws_Cons_length[OF s3]
    from a s1 pc s2 pv s3 l1 l2 l3 l4 l5 show ?thesis
      using M[of r3]
      by (auto split: if_splits option.splits) (fastforce+)?
  qed
  show ?case using v e m by blast
qed

lemma parse_value_length: "parse_value n s = Some (v, r) \<Longrightarrow> length r \<le> length s"
  using parse_length[of n s v r] by simp

text \<open>Beyond a bound given by the length of the text, more fuel changes nothing.\<close>

lemma parse_fuel:
  "(2 * length s + 2 \<le> n \<longrightarrow> parse_value (n + k) s = parse_value n s)
   \<and> (2 * length s + 3 \<le> n \<longrightarrow> parse_elements (n + k) s = parse_elements n s)
   \<and> (2 * length s + 3 \<le> n \<longrightarrow> parse_members (n + k) s = parse_members n s)"
proof (induction n arbitrary: s)
  case 0
  show ?case by simp
next
  case (Suc n)
  have V: "parse_value (n + k) s' = parse_value n s'" if "2 * length s' + 2 \<le> n" for s'
    using Suc[of s'] that by simp
  have E: "parse_elements (n + k) s' = parse_elements n s'" if "2 * length s' + 3 \<le> n" for s'
    using Suc[of s'] that by simp
  have M: "parse_members (n + k) s' = parse_members n s'" if "2 * length s' + 3 \<le> n" for s'
    using Suc[of s'] that by simp
  have v: "parse_value (Suc n + k) s = parse_value (Suc n) s" if b: "2 * length s + 2 \<le> Suc n"
  proof (cases "skip_ws s")
    case Nil
    then show ?thesis by simp
  next
    case (Cons c cs)
    note l = skip_ws_Cons_length[OF Cons]
    show ?thesis
    proof (cases "skip_ws cs")
      case Nil
      with Cons show ?thesis by simp
    next
      case Cons2: (Cons d ds)
      note l2 = skip_ws_Cons_length[OF Cons2]
      have "2 * length (d # ds) + 3 \<le> n" using l l2 b by simp
      then have "parse_members (n + k) (d # ds) = parse_members n (d # ds)"
        "parse_elements (n + k) (d # ds) = parse_elements n (d # ds)"
        using M E by blast+
      with Cons Cons2 show ?thesis by auto
    qed
  qed
  have e: "parse_elements (Suc n + k) s = parse_elements (Suc n) s"
    if b: "2 * length s + 3 \<le> Suc n"
  proof -
    have pv: "parse_value (n + k) s = parse_value n s" using V b by simp
    show ?thesis
    proof (cases "parse_value n s")
      case None
      with pv show ?thesis by simp
    next
      case (Some a)
      obtain v1 r1 where a: "a = (v1, r1)" by (cases a)
      note l1 = parse_value_length[OF Some[unfolded a]]
      show ?thesis
      proof (cases "skip_ws r1")
        case Nil
        with pv Some a show ?thesis by simp
      next
        case (Cons c cs)
        note l2 = skip_ws_Cons_length[OF Cons]
        have "2 * length cs + 3 \<le> n" using l1 l2 b by simp
        then have "parse_elements (n + k) cs = parse_elements n cs" using E by blast
        with pv Some a Cons show ?thesis by simp
      qed
    qed
  qed
  have m: "parse_members (Suc n + k) s = parse_members (Suc n) s"
    if b: "2 * length s + 3 \<le> Suc n"
  proof (cases "skip_ws s")
    case Nil
    then show ?thesis by simp
  next
    case (Cons q cs)
    note l1 = skip_ws_Cons_length[OF Cons]
    show ?thesis
    proof (cases "parse_chars cs")
      case None
      with Cons show ?thesis by simp
    next
      case (Some a)
      obtain k0 r0 where a: "a = (k0, r0)" by (cases a)
      note l2 = parse_chars_length[OF Some[unfolded a]]
      show ?thesis
      proof (cases "skip_ws r0")
        case Nil
        with Cons Some a show ?thesis by simp
      next
        case Cons3: (Cons c r1)
        note l3 = skip_ws_Cons_length[OF Cons3]
        have "2 * length r1 + 2 \<le> n" using l1 l2 l3 b by simp
        then have pv: "parse_value (n + k) r1 = parse_value n r1" using V by blast
        show ?thesis
        proof (cases "parse_value n r1")
          case None
          with pv Cons Some a Cons3 show ?thesis by simp
        next
          case Some2: (Some a2)
          obtain v1 r2 where a2: "a2 = (v1, r2)" by (cases a2)
          note l4 = parse_value_length[OF Some2[unfolded a2]]
          show ?thesis
          proof (cases "skip_ws r2")
            case Nil
            with pv Cons Some a Cons3 Some2 a2 show ?thesis by simp
          next
            case Cons4: (Cons d r3)
            note l5 = skip_ws_Cons_length[OF Cons4]
            have "2 * length r3 + 3 \<le> n" using l1 l2 l3 l4 l5 b by simp
            then have "parse_members (n + k) r3 = parse_members n r3" using M by blast
            with pv Cons Some a Cons3 Some2 a2 Cons4 show ?thesis by simp
          qed
        qed
      qed
    qed
  qed
  show ?case using v e m by blast
qed

text \<open>
  The fuel that \<open>JSON_parse\<close> supplies is enough: its result is the result with any
  larger amount.
\<close>

lemma JSON_parse_fuel:
  "2 * length s + 2 \<le> n \<Longrightarrow>
     JSON_parse s =
       (case parse_value n s of
          None \<Rightarrow> None
        | Some (v, r) \<Rightarrow> if skip_ws r = [] then Some v else None)"
proof -
  assume "2 * length s + 2 \<le> n"
  then obtain k where n: "n = (2 * length s + 2) + k"
    using le_Suc_ex by blast
  have "parse_value ((2 * length s + 2) + k) s = parse_value (2 * length s + 2) s"
    using parse_fuel[of s "2 * length s + 2" k] by simp
  then show ?thesis by (simp add: JSON_parse_def n)
qed

section \<open>Evaluating the parser on a literal text\<close>

lemmas parse_value_numeral =
  parse_value.simps(2)[of "pred_numeral k" for k, folded numeral_eq_Suc]

lemmas parse_elements_numeral =
  parse_elements.simps(2)[of "pred_numeral k" for k, folded numeral_eq_Suc]

lemmas parse_members_numeral =
  parse_members.simps(2)[of "pred_numeral k" for k, folded numeral_eq_Suc]

lemmas json_eval =
  JSON_parse_def skip_ws_def is_ws_def parse_number_def parse_int_part_def parse_frac_def
  parse_exp_def parse_sign_def is_digit_def digits_val_def digit_val_def match_lit_def
  parse_value_numeral parse_elements_numeral parse_members_numeral hex4_def hex_val_def
  unescape_def utf8_unit_def

lemmas view_eval =
  as_StoredTokens_def as_OAuthTokenResponse_def str_field_def int_field_def opt_str_field_def
  opt_int_field_def own_prop_def

lemma sample_file_parse: "JSON_parse sample_file = Some (json_of_tokens sample_tokens)"
  by (simp add: sample_file_def json_eval json_of_tokens_def sample_tokens_def)

lemma sample_stored: "stored_record sample_world = Some sample_tokens"
  by (simp add: stored_record_def fs_readFileSync_def sample_world_def owner_x_def owner_r_def
      sample_file_parse as_StoredTokens_json_of_tokens)

lemma sample_body_data:
  "response_data sample_body =
     Some \<lparr>data_access_token = ''B'', data_expires_in = Value 3600, data_scope = Undefined,
           data_refresh_token = Undefined, data_refresh_token_expires_at = Undefined\<rparr>"
  by (simp add: response_data_def sample_body_def json_eval view_eval)

lemma sample_static: "static_token sample_world = None"
  by (simp add: static_token_def sample_world_def)

lemma zero_stored:
  "stored_record zero_world = Some (sample_tokens\<lparr>refresh_token_expires_at := 0\<rparr>)"
  by (simp add: stored_record_def fs_readFileSync_def zero_world_def sample_world_def
      owner_x_def owner_r_def sample_file_zero_def json_eval view_eval sample_tokens_def)




lemma exchange_body_data:
  "response_data exchange_body =
     Some \<lparr>data_access_token = ''A'', data_expires_in = Value 3600,
           data_scope = Value ''pins:read'', data_refresh_token = Value ''R'',
           data_refresh_token_expires_at = Value 1701000000\<rparr>"
  by (simp add: response_data_def exchange_body_def json_eval view_eval)

lemma file_world_read:
  "fs_readFileSync (file_world None) = Inl (FsError ENOENT)"
  "fs_readFileSync (file_world (Some (0x080, data))) = Inl (FsError EACCES)"
  "fs_readFileSync (file_world (Some (0x180, data))) = Inr data"
  by (simp_all add: file_world_def sample_world_def fs_readFileSync_def owner_x_def owner_r_def)

lemma file_world_static: "static_token (file_world f) = None"
  by (simp add: file_world_def static_token_def sample_world_def)

lemma malformed_parse: "JSON_parse ''{\"access_token\":'' = None"
  by (simp add: json_eval)

lemma null_parse: "JSON_parse ''null'' = Some JNull"
  by (simp add: json_eval)

lemma empty_token_parse:
  "JSON_parse ''{\"access_token\":\"\",\"refresh_token\":\"R\"}'' =
     Some (JObj [(''access_token'', JStr []), (''refresh_token'', JStr ''R'')])"
  by (simp add: json_eval)

lemma no_token_parse:
  "JSON_parse ''{\"refresh_token\":\"R\"}'' = Some (JObj [(''refresh_token'', JStr ''R'')])"
  by (simp add: json_eval)

section \<open>The store and the refresh call\<close>

lemma as_StoredTokens_access_token:
  assumes "as_StoredTokens j = Some r"
  shows "get_prop j ''access_token'' = Inr (Some (JStr (access_token r)))"
  using assms
  by (cases j)
     (auto simp add: as_StoredTokens_def str_field_def split: option.splits json.splits)

lemma stored_recordD:
  assumes "stored_record w = Some r"
  obtains dm fm data j where
    "token_dir w = Directory dm" "owner_x dm"
    "token_file w = Some (fm, data)" "owner_r fm"
    "JSON_parse data = Some j" "as_StoredTokens j = Some r"
  using assms
  by (auto simp add: stored_record_def fs_readFileSync_def
      split: dir_entry.splits option.splits if_splits sum.splits)

text \<open>In OAuth mode \<open>loadTokens\<close> returns the record on disk, and leaves the world as it is.\<close>

lemma loadTokens_stored:
  assumes "static_token w = None" "stored_record w = Some r" "access_token r \<noteq> []"
  shows "\<exists>j. loadTokens w = (Some j, w) \<and> as_StoredTokens j = Some r"
proof -
  from assms(2) obtain data j where
    rd: "fs_readFileSync w = Inr data" and p: "JSON_parse data = Some j"
    and v: "as_StoredTokens j = Some r"
    by (auto simp add: stored_record_def split: sum.splits option.splits)
  have "loadTokens w = (Some j, w)"
    using assms(1,3) rd p as_StoredTokens_access_token[OF v]
    by (simp add: loadTokens_def loadTokens_try_def)
  with v show ?thesis by blast
qed

lemma fs_readFileSync_frame [simp]:
  "fs_readFileSync (w\<lparr>ticks := n\<rparr>) = fs_readFileSync w"
  "fs_readFileSync (w\<lparr>stderr := l\<rparr>) = fs_readFileSync w"
  "fs_readFileSync (w\<lparr>requests := q\<rparr>) = fs_readFileSync w"
  "fs_readFileSync (w\<lparr>responses := p\<rparr>) = fs_readFileSync w"
  by (simp_all add: fs_readFileSync_def cong: dir_entry.case_cong if_cong)

lemma stored_record_frame [simp]:
  "stored_record (w\<lparr>ticks := n\<rparr>) = stored_record w"
  "stored_record (w\<lparr>stderr := l\<rparr>) = stored_record w"
  "stored_record (w\<lparr>requests := q\<rparr>) = stored_record w"
  "stored_record (w\<lparr>responses := p\<rparr>) = stored_record w"
  by (simp_all add: stored_record_def)

lemma static_token_frame [simp]:
  "static_token (w\<lparr>ticks := n\<rparr>) = static_token w"
  "static_token (w\<lparr>stderr := l\<rparr>) = static_token w"
  "static_token (w\<lparr>token_file := f\<rparr>) = static_token w"
  "static_token (w\<lparr>token_dir := d\<rparr>) = static_token w"
  "static_token (w\<lparr>requests := q\<rparr>) = static_token w"
  "static_token (w\<lparr>responses := p\<rparr>) = static_token w"
  by (simp_all add: static_token_def)

lemma getBasicAuthHeader_frame [simp]:
  "getBasicAuthHeader (w\<lparr>stderr := l\<rparr>) = getBasicAuthHeader w"
  "getBasicAuthHeader (w\<lparr>ticks := n\<rparr>) = getBasicAuthHeader w"
proof -
  have "getAppId (w\<lparr>stderr := l\<rparr>) = getAppId w"
    "getAppSecret (w\<lparr>stderr := l\<rparr>) = getAppSecret w"
    "getAppId (w\<lparr>ticks := n\<rparr>) = getAppId w"
    "getAppSecret (w\<lparr>ticks := n\<rparr>) = getAppSecret w"
    by (simp_all add: getAppId_def getAppSecret_def)
  then show "getBasicAuthHeader (w\<lparr>stderr := l\<rparr>) = getBasicAuthHeader w"
    "getBasicAuthHeader (w\<lparr>ticks := n\<rparr>) = getBasicAuthHeader w"
    by (simp_all add: getBasicAuthHeader_def cong: sum.case_cong)
qed

text \<open>Saving over a credential file that is there and writable.\<close>

lemma saveTokens_existing:
  assumes "token_dir w = Directory dm" "owner_x dm" "token_file w = Some (fm, old)" "owner_w fm"
  shows "saveTokens t w =
    (Inr (), w\<lparr>token_file := Some (fm, JSON_stringify t),
               stderr := stderr w @ [''[auth] Tokens saved to '' @ getTokenPath]\<rparr>)"
  using assms
  by (simp add: saveTokens_def fs_existsSync_def fs_writeFileSync_def console_error_def)

lemma stored_record_written:
  assumes "token_dir w = Directory dm" "owner_x dm"
    "token_file w = Some (fm, JSON_stringify (finite_tokens t))" "owner_r fm"
  shows "stored_record w = Some t"
  using assms
  by (simp add: stored_record_def fs_readFileSync_def JSON_parse_stringify
      as_StoredTokens_parsed_tokens)

lemma refreshAccessToken_success:
  assumes st: "static_token w = None"
    and rec: "stored_record w = Some r"
    and at: "access_token r \<noteq> []"
    and rt: "refresh_token r \<noteq> []"
    and auth: "getBasicAuthHeader w = Inr auth"
    and resp: "responses w = Response status body # rest"
    and ok: "response_ok status"
    and data: "response_data body = Some d"
    and wr: "token_file w = Some (fm, old)" "owner_w fm"
  shows "refreshAccessToken w =
    (Inr (newTokens r d (clock w (ticks w))),
     w\<lparr>ticks := Suc (ticks w),
       token_file := Some (fm, JSON_stringify (newTokens r d (clock w (ticks w)))),
       responses := rest,
       requests := requests w @ [refresh_request auth (refresh_token r)],
       stderr := stderr w @ [''[auth] Refreshing access token...'',
                            ''[auth] Tokens saved to '' @ getTokenPath,
                            ''[auth] Access token refreshed successfully.'']\<rparr>)"
proof -
  obtain j where l: "loadTokens w = (Some j, w)" and v: "as_StoredTokens j = Some r"
    using loadTokens_stored[OF st rec at] by blast
  from rec obtain dm where d: "token_dir w = Directory dm" "owner_x dm"
    by (rule stored_recordD)
  from data obtain dj where dj: "JSON_parse body = Some dj" "as_OAuthTokenResponse dj = Some d"
    by (auto simp add: response_data_def split: option.splits)
  let ?w2 = "console_error ''[auth] Refreshing access token...'' w"
  have a2: "getBasicAuthHeader ?w2 = Inr auth"
    using auth by (simp add: console_error_def)
  show ?thesis
    using l v rt a2 resp ok dj
    apply (simp add: refreshAccessToken_def Let_def fetch_def Date_now_def console_error_def)
    apply (subst saveTokens_existing[where dm = dm and fm = fm and old = old])
    using d wr apply simp_all
    apply (simp add: console_error_def)
    done
qed

lemma frame_clock [simp]:
  "fs_readFileSync (w\<lparr>clock := c\<rparr>) = fs_readFileSync w"
  "stored_record (w\<lparr>clock := c\<rparr>) = stored_record w"
  "static_token (w\<lparr>clock := c\<rparr>) = static_token w"
proof -
  show "fs_readFileSync (w\<lparr>clock := c\<rparr>) = fs_readFileSync w"
    by (simp add: fs_readFileSync_def cong: dir_entry.case_cong if_cong)
  then show "stored_record (w\<lparr>clock := c\<rparr>) = stored_record w"
    by (simp add: stored_record_def)
  show "static_token (w\<lparr>clock := c\<rparr>) = static_token w"
    by (simp add: static_token_def)
qed

text \<open>What a save that succeeds leaves behind.\<close>

lemma saveTokens_success:
  assumes "saveTokens t w = (Inr (), w')"
  shows "\<exists>dm fm. token_dir w' = Directory dm \<and> owner_x dm
           \<and> token_file w' = Some (fm, JSON_stringify t)
           \<and> static_token w' = static_token w"
  using assms
  by (auto simp add: saveTokens_def fs_existsSync_def fs_mkdirSync_def fs_writeFileSync_def
      console_error_def static_token_def
      split: if_splits sum.splits dir_entry.splits option.splits)

lemma saveTokens_fresh:
  "saveTokens (finite_tokens sample_tokens) fresh_world = (Inr (), saved_world)"
  by (simp add: saveTokens_def fs_existsSync_def fs_mkdirSync_def fs_writeFileSync_def
      console_error_def fresh_world_def saved_world_def sample_world_def owner_x_def owner_w_def
      getTokenPath_def getTokenDir_def)

lemma saveTokens_sample:
  "saveTokens (finite_tokens sample_tokens) sample_world =
     (Inr (), sample_world\<lparr>token_file :=
                              Some (0x180, JSON_stringify (finite_tokens sample_tokens)),
        stderr := [''[auth] Tokens saved to ~/.mcp-credentials/pinterest-tokens.json'']\<rparr>)"
  by (simp add: saveTokens_def fs_existsSync_def fs_writeFileSync_def
      console_error_def sample_world_def owner_x_def owner_w_def
      getTokenPath_def getTokenDir_def)

text \<open>The owner-only mode 0o600 stays owner-only under every umask.\<close>

lemma owner_only_masked: "owner_only (0x180 AND NOT u)"
proof -
  have "(0x180 AND NOT u) AND 0x3F = (0x180 AND 0x3F) AND NOT u"
    by (simp add: ac_simps)
  then show ?thesis by (simp add: owner_only_def)
qed

section \<open>\<open>getValidAccessToken\<close>\<close>


lemma getValidAccessToken_refresh:
  assumes st: "static_token w = None"
    and rec: "stored_record w = Some r"
    and at: "access_token r \<noteq> []"
    and ex: "expires_at r \<le> clock w (ticks w) + 60000"
    and rt: "refresh_token r \<noteq> []"
    and rex: "clock w (Suc (ticks w)) \<le> refresh_token_expires_at r"
    and auth: "getBasicAuthHeader w = Inr auth"
    and resp: "responses w = Response status body # rest"
    and ok: "response_ok status"
    and data: "response_data body = Some d"
    and wr: "token_file w = Some (fm, old)" "owner_w fm"
  shows "getValidAccessToken w =
    (Inr (data_access_token d),
     refreshed_world w fm (newTokens r d (clock w (Suc (Suc (ticks w)))))
       (refresh_request auth (refresh_token r)) rest)"
proof -
  obtain j where l: "loadTokens w = (Some j, w)" and v: "as_StoredTokens j = Some r"
    using loadTokens_stored[OF st rec at] by blast
  let ?w3 = "w\<lparr>ticks := Suc (Suc (ticks w))\<rparr>"
  have r3: "refreshAccessToken ?w3 =
    (Inr (newTokens r d (clock ?w3 (ticks ?w3))),
     ?w3\<lparr>ticks := Suc (ticks ?w3),
       token_file := Some (fm, JSON_stringify (newTokens r d (clock ?w3 (ticks ?w3)))),
       responses := rest,
       requests := requests ?w3 @ [refresh_request auth (refresh_token r)],
       stderr := stderr ?w3 @ [''[auth] Refreshing access token...'',
                            ''[auth] Tokens saved to '' @ getTokenPath,
                            ''[auth] Access token refreshed successfully.'']\<rparr>)"
    by (rule refreshAccessToken_success[where status = status and body = body and old = old])
       (use st rec at rt auth resp ok data wr in simp_all)
  show ?thesis
    using l v st ex rt rex
    by (simp add: getValidAccessToken_def Date_now_def TOKEN_EXPIRY_BUFFER_MS_def r3
        refreshed_world_def newTokens_def)
qed


lemma access_expired_refresh_expired:
  assumes "static_token w = None"
    and "stored_record w = Some r"
    and "access_token r \<noteq> []"
    and "expires_at r \<le> clock w (ticks w) + 60000"
    and "refresh_token r \<noteq> []"
    and "refresh_token_expires_at r < clock w (Suc (ticks w))"
  shows "getValidAccessToken w =
    (Inl RefreshTokenExpired, w\<lparr>ticks := Suc (Suc (ticks w))\<rparr>)"
proof -
  obtain j where "loadTokens w = (Some j, w)" "as_StoredTokens j = Some r"
    using loadTokens_stored[OF assms(1-3)] by blast
  then show ?thesis
    using assms(1,4,5,6)
    by (simp add: getValidAccessToken_def Date_now_def TOKEN_EXPIRY_BUFFER_MS_def)
qed

lemma stored_record_refreshed:
  assumes "stored_record w = Some r" "token_file w = Some (fm, old)"
  shows "stored_record (refreshed_world w fm (finite_tokens nt) req rest) = Some nt"
proof -
  from assms obtain dm where "token_dir w = Directory dm" "owner_x dm" "owner_r fm"
    by (auto elim!: stored_recordD)
  then show ?thesis
    by (intro stored_record_written[where dm = dm and fm = fm])
       (simp_all add: refreshed_world_def)
qed


section \<open>The handshake\<close>

lemma handle_requests_events:
  "handle_requests state cbs = (r, es, left) \<Longrightarrow>
     launched_when_ready b es \<and> launched_after_listen a es \<and> no_ready_after_launch c es"
proof (induction cbs arbitrary: r es left)
  case Nil
  then show ?case by auto
next
  case (Cons req rest)
  then show ?case
    by (auto split: if_splits prod.splits option.splits)
qed

lemma events_saveTokens: "saveTokens t w = (x, w') \<Longrightarrow> events w' = events w"
  by (auto simp add: saveTokens_def fs_existsSync_def fs_mkdirSync_def fs_writeFileSync_def
      console_error_def
      split: if_splits sum.splits dir_entry.splits option.splits)

lemma events_exchangeCodeForTokens:
  "exchangeCodeForTokens code w = (x, w') \<Longrightarrow> events w' = events w"
  by (auto simp add: exchangeCodeForTokens_def fetch_def Date_now_def
      split: if_splits sum.splits option.splits list.splits http_response.splits prod.splits
        property.splits)

lemma events_finish:
  "events (snd (case exchangeCodeForTokens code w of
                  (Inl e, w8) \<Rightarrow> (Inl e, w8)
                | (Inr tokens, w8) \<Rightarrow>
                    (case saveTokens tokens w8 of
                       (Inl e, w9) \<Rightarrow> (Inl e, w9)
                     | (Inr v, w9) \<Rightarrow> (Inr msg, console_error line w9)))) = events w"
proof -
  obtain x w8 where e: "exchangeCodeForTokens code w = (x, w8)"
    by (cases "exchangeCodeForTokens code w")
  note e8 = events_exchangeCodeForTokens[OF e]
  show ?thesis
  proof (cases x)
    case (Inl err)
    then show ?thesis using e e8 by simp
  next
    case (Inr tokens)
    obtain y w9 where s: "saveTokens tokens w8 = (y, w9)"
      by (cases "saveTokens tokens w8")
    note e9 = events_saveTokens[OF s]
    show ?thesis using e Inr s e8 e9 by (cases y) (simp_all add: console_error_def)
  qed
qed

lemma startOAuthFlow_trace:
  "\<exists>tr. events (snd (startOAuthFlow w)) = events w @ tr
        \<and> launched_after_listen False tr
        \<and> no_ready_after_launch False tr
        \<and> (port_free w \<longrightarrow> launched_when_ready False tr)"
proof (cases "getAppId w")
  case (Inl e)
  then have "events (snd (startOAuthFlow w)) = events w @ []"
    by (simp add: startOAuthFlow_def)
  then show ?thesis by force
next
  case (Inr app_id)
  show ?thesis
  proof (cases "browser_opens w")
    case False
    then have "events (snd (startOAuthFlow w)) =
        events w @ (if port_free w then [ListenRequested 3333, ListenerReady 3333]
                    else [ListenRequested 3333])"
      using Inr
      by (simp add: startOAuthFlow_def Let_def waitForAuthorizationCode_def server_listen_def
          open_browser_def console_error_def OAUTH_CALLBACK_PORT_def)
    then show ?thesis by force
  next
    case True
    show ?thesis
    proof (cases "port_free w")
      case False
      then have "events (snd (startOAuthFlow w)) =
          events w @ [ListenRequested 3333, BrowserLaunched (authUrl app_id (random_uuid w))]"
        using Inr True
        by (simp add: startOAuthFlow_def Let_def waitForAuthorizationCode_def server_listen_def
            open_browser_def console_error_def OAUTH_CALLBACK_PORT_def await_promise_def)
      then show ?thesis using False by force
    next
      case pf: True
      obtain r es left where h: "handle_requests (random_uuid w) (callbacks w) = (r, es, left)"
        by (cases "handle_requests (random_uuid w) (callbacks w)")
      have "events (snd (startOAuthFlow w)) =
          events w @ ListenRequested 3333 # ListenerReady 3333 #
             BrowserLaunched (authUrl app_id (random_uuid w)) # es"
        using Inr True pf h
        by (cases r)
           (simp_all add: startOAuthFlow_def Let_def waitForAuthorizationCode_def
             server_listen_def open_browser_def console_error_def OAUTH_CALLBACK_PORT_def
             await_promise_def events_finish)
      then show ?thesis
        using handle_requests_events[OF h, of True True True] by force
    qed
  qed
qed

lemma run_events_trace:
  "events (snd (startOAuthFlow w)) = events w @ run_events w"
  using startOAuthFlow_trace[of w] by (auto simp add: run_events_def)

lemma authUrl_sample:
  "authUrl ''app'' ''8d8ac610-566d-4ef0-9c22-186b2a5ed793'' =
     ''https://www.pinterest.com/oauth/?consumer_id=app'' @
     ''&redirect_uri=http%3A%2F%2Flocalhost%3A3333%2Fcallback'' @
     ''&response_type=code&refreshable=true'' @
     ''&scope=boards%3Aread%2Cboards%3Awrite%2Cpins%3Aread%2Cpins%3Awrite'' @
     ''%2Cuser_accounts%3Aread&state=8d8ac610-566d-4ef0-9c22-186b2a5ed793''"
  by (simp add: authUrl_def PINTEREST_AUTH_URL_def OAUTH_REDIRECT_URI_def OAUTH_SCOPES_def
      form_encode_def form_encode_char_def is_alnum_def HEX_digit_def)

lemma handshake_run:
  "fst (startOAuthFlow handshake_world) = Inr ''Successfully authenticated with Pinterest!''"
  "events (snd (startOAuthFlow handshake_world)) =
     [ListenRequested 3333, ListenerReady 3333,
      BrowserLaunched (authUrl ''app'' ''8d8ac610-566d-4ef0-9c22-186b2a5ed793''),
      HttpReply 404, HttpReply 200, ListenerClosed]"
  by (simp_all add: startOAuthFlow_def Let_def handshake_world_def fresh_world_def
      sample_world_def getAppId_def getAppSecret_def getBasicAuthHeader_def
      waitForAuthorizationCode_def server_listen_def open_browser_def console_error_def
      await_promise_def OAUTH_CALLBACK_PORT_def exchangeCodeForTokens_def fetch_def
      response_ok_def Date_now_def saveTokens_def fs_existsSync_def fs_mkdirSync_def
      fs_writeFileSync_def owner_x_def owner_w_def exchange_body_def json_eval view_eval)

lemma busy_run:
  "fst (startOAuthFlow busy_world) = Inl CallbackServerFailed"
  "events (snd (startOAuthFlow busy_world)) =
     [ListenRequested 3333,
      BrowserLaunched (authUrl ''app'' ''8d8ac610-566d-4ef0-9c22-186b2a5ed793'')]"
  by (simp_all add: startOAuthFlow_def Let_def busy_world_def handshake_world_def
      fresh_world_def sample_world_def getAppId_def waitForAuthorizationCode_def
      server_listen_def open_browser_def console_error_def await_promise_def
      OAUTH_CALLBACK_PORT_def)

section \<open>The properties\<close>

text \<open>
  In the statements below \<open>static_token w = None\<close> says that no static token is
  configured, and \<open>stored_record w = Some r\<close> with \<open>access_token r \<noteq> []\<close> that \<open>r\<close> is the
  credential record on disk (a record with an empty access token counts as absent). The
  current time is what the clock returns when the code asks: \<open>clock w (ticks w)\<close> is the
  first reading of a call, \<open>clock w (Suc (ticks w))\<close> the second.
\<close>

text \<open>
  C1. For every stored credential record whose access expiry is more than the 60-second
  buffer after the current time, and with no static token configured,
  \<open>getValidAccessToken\<close> returns the record's access token unchanged. The world
  afterwards differs from the one before only in the count of clock readings: no request
  was sent to the token endpoint, no answer consumed, and the credential directory and
  file are as they were.
\<close>

theorem C1_fast_path:
  assumes "static_token w = None"
    and "stored_record w = Some r"
    and "access_token r \<noteq> []"
    and "clock w (ticks w) + 60000 < expires_at r"
  shows "getValidAccessToken w = (Inr (access_token r), w\<lparr>ticks := Suc (ticks w)\<rparr>)
         \<and> requests (snd (getValidAccessToken w)) = requests w
         \<and> responses (snd (getValidAccessToken w)) = responses w
         \<and> token_dir (snd (getValidAccessToken w)) = token_dir w
         \<and> token_file (snd (getValidAccessToken w)) = token_file w"
proof -
  obtain j where "loadTokens w = (Some j, w)" "as_StoredTokens j = Some r"
    using loadTokens_stored[OF assms(1-3)] by blast
  then have "getValidAccessToken w = (Inr (access_token r), w\<lparr>ticks := Suc (ticks w)\<rparr>)"
    using assms(1,4)
    by (simp add: getValidAccessToken_def Date_now_def TOKEN_EXPIRY_BUFFER_MS_def)
  then show ?thesis by simp
qed

theorem C1_fast_path_witness:
  "static_token (sample_world\<lparr>clock := \<lambda>n. 1699999000000\<rparr>) = None
   \<and> stored_record (sample_world\<lparr>clock := \<lambda>n. 1699999000000\<rparr>) = Some sample_tokens
   \<and> access_token sample_tokens \<noteq> []
   \<and> (1699999000000::int) + 60000 < expires_at sample_tokens
   \<and> fst (getValidAccessToken (sample_world\<lparr>clock := \<lambda>n. 1699999000000\<rparr>)) = Inr ''A''
   \<and> requests (snd (getValidAccessToken (sample_world\<lparr>clock := \<lambda>n. 1699999000000\<rparr>))) = []"
proof -
  let ?w = "sample_world\<lparr>clock := \<lambda>n. 1699999000000\<rparr>"
  have h1: "static_token ?w = None" by (simp add: sample_static)
  have h2: "stored_record ?w = Some sample_tokens" by (simp add: sample_stored)
  have h3: "access_token sample_tokens \<noteq> []" by (simp add: sample_tokens_def)
  have h4: "clock ?w (ticks ?w) + 60000 < expires_at sample_tokens"
    by (simp add: sample_tokens_def)
  show ?thesis
    using C1_fast_path[OF h1 h2 h3 h4] h1 h2
    by (simp add: sample_tokens_def sample_world_def)
qed

text \<open>
  C2. The scenario of the specification. The record on disk is
  \<open>{access_token: "A", refresh_token: "R", access_expiry: now - 1000, refresh_expiry:
  now + 1e9}\<close>, no static token is configured, the application id and secret are set,
  the credential file can be written, and the endpoint answers the refresh call with a
  success status and \<open>{access_token: "B", expires_in: 3600}\<close> (no refresh token, no
  refresh expiry, no scope). Then \<open>getValidAccessToken\<close> returns \<open>"B"\<close>; it has sent
  exactly one request, to the token URL, authorized with the application id and secret,
  with the form fields \<open>grant_type=refresh_token\<close> and \<open>refresh_token=R\<close>; it has consumed
  the one answer; and the record on disk afterwards has access token \<open>"B"\<close>, the refresh
  token \<open>"R"\<close>, the refresh expiry and the scope carried forward, and the access expiry
  3600000 ms after the third clock reading of the call (the one taken when the answer is
  processed).
\<close>

theorem C2_refresh_scenario:
  assumes "static_token w = None"
    and "stored_record w =
           Some \<lparr>access_token = ''A'', refresh_token = ''R'', expires_at = now - 1000,
                 refresh_token_expires_at = now + 1000000000, scope = sc\<rparr>"
    and "clock w (ticks w) = now"
    and "clock w (Suc (ticks w)) \<le> now + 1000000000"
    and "env_PINTEREST_APP_ID w = Some app_id"
    and "app_id \<noteq> []"
    and "env_PINTEREST_APP_SECRET w = Some secret"
    and "secret \<noteq> []"
    and "responses w = Response status body # rest"
    and "response_ok status"
    and "response_data body =
           Some \<lparr>data_access_token = ''B'', data_expires_in = Value 3600,
                 data_scope = Undefined, data_refresh_token = Undefined,
                 data_refresh_token_expires_at = Undefined\<rparr>"
    and "token_file w = Some (fm, old)"
    and "owner_w fm"
  shows "fst (getValidAccessToken w) = Inr ''B''
         \<and> requests (snd (getValidAccessToken w)) =
             requests w @
               [\<lparr>url = ''https://api.pinterest.com/v5/oauth/token'',
                 basic_auth = (app_id, secret),
                 form = [(''grant_type'', ''refresh_token''), (''refresh_token'', ''R'')]\<rparr>]
         \<and> responses (snd (getValidAccessToken w)) = rest
         \<and> stored_record (snd (getValidAccessToken w)) =
             Some \<lparr>access_token = ''B'', refresh_token = ''R'',
                   expires_at = clock w (Suc (Suc (ticks w))) + 3600000,
                   refresh_token_expires_at = now + 1000000000, scope = sc\<rparr>"
proof -
  let ?r = "\<lparr>access_token = ''A'', refresh_token = ''R'', expires_at = now - 1000,
             refresh_token_expires_at = now + 1000000000, scope = sc\<rparr>"
  let ?d = "\<lparr>data_access_token = ''B'', data_expires_in = Value 3600,
             data_scope = Undefined, data_refresh_token = Undefined,
             data_refresh_token_expires_at = Undefined\<rparr>"
  let ?nt = "\<lparr>access_token = ''B'', refresh_token = ''R'',
              expires_at = clock w (Suc (Suc (ticks w))) + 3600000,
              refresh_token_expires_at = now + 1000000000, scope = sc\<rparr>"
  have auth: "getBasicAuthHeader w = Inr (app_id, secret)"
    using assms(5-8) by (simp add: getBasicAuthHeader_def getAppId_def getAppSecret_def)
  have g: "getValidAccessToken w =
      (Inr (data_access_token ?d),
       refreshed_world w fm (newTokens ?r ?d (clock w (Suc (Suc (ticks w)))))
         (refresh_request (app_id, secret) (refresh_token ?r)) rest)"
    by (rule getValidAccessToken_refresh[OF assms(1,2) _ _ _ _ auth assms(9,10,11,12,13)])
       (use assms(3,4) in simp_all)
  have nt: "newTokens ?r ?d (clock w (Suc (Suc (ticks w)))) = finite_tokens ?nt"
    by (simp add: newTokens_def finite_tokens_def)
  have s: "stored_record
             (refreshed_world w fm (finite_tokens ?nt)
                (refresh_request (app_id, secret) (refresh_token ?r)) rest) = Some ?nt"
    by (rule stored_record_refreshed[OF assms(2,12)])
  show ?thesis
    unfolding g nt using s
    by (simp add: refreshed_world_def refresh_request_def PINTEREST_TOKEN_URL_def)
qed

theorem C2_refresh_scenario_witness:
  "static_token sample_world = None
   \<and> stored_record sample_world =
       Some \<lparr>access_token = ''A'', refresh_token = ''R'', expires_at = 1700000000000 - 1000,
             refresh_token_expires_at = 1700000000000 + 1000000000, scope = ''pins:read''\<rparr>
   \<and> clock sample_world (ticks sample_world) = 1700000000000
   \<and> env_PINTEREST_APP_ID sample_world = Some ''app''
   \<and> env_PINTEREST_APP_SECRET sample_world = Some ''secret''
   \<and> responses sample_world = [Response 200 sample_body]
   \<and> response_ok 200
   \<and> response_data sample_body =
       Some \<lparr>data_access_token = ''B'', data_expires_in = Value 3600,
             data_scope = Undefined, data_refresh_token = Undefined,
             data_refresh_token_expires_at = Undefined\<rparr>
   \<and> token_file sample_world = Some (0x180, sample_file)
   \<and> owner_w 0x180
   \<and> fst (getValidAccessToken sample_world) = Inr ''B''
   \<and> requests (snd (getValidAccessToken sample_world)) =
       [\<lparr>url = ''https://api.pinterest.com/v5/oauth/token'',
         basic_auth = (''app'', ''secret''),
         form = [(''grant_type'', ''refresh_token''), (''refresh_token'', ''R'')]\<rparr>]
   \<and> responses (snd (getValidAccessToken sample_world)) = []
   \<and> stored_record (snd (getValidAccessToken sample_world)) =
       Some \<lparr>access_token = ''B'', refresh_token = ''R'', expires_at = 1700003600000,
             refresh_token_expires_at = 1701000000000, scope = ''pins:read''\<rparr>"
proof -
  have h1: "static_token sample_world = None" by (rule sample_static)
  have h2: "stored_record sample_world =
       Some \<lparr>access_token = ''A'', refresh_token = ''R'', expires_at = 1700000000000 - 1000,
             refresh_token_expires_at = 1700000000000 + 1000000000, scope = ''pins:read''\<rparr>"
    by (simp add: sample_stored sample_tokens_def)
  have h3: "clock sample_world (ticks sample_world) = 1700000000000"
    by (simp add: sample_world_def)
  have h4: "clock sample_world (Suc (ticks sample_world)) \<le> 1700000000000 + 1000000000"
    by (simp add: sample_world_def)
  have h5: "env_PINTEREST_APP_ID sample_world = Some ''app''" "''app'' \<noteq> []"
    by (simp_all add: sample_world_def)
  have h7: "env_PINTEREST_APP_SECRET sample_world = Some ''secret''" "''secret'' \<noteq> []"
    by (simp_all add: sample_world_def)
  have h9: "responses sample_world = Response 200 sample_body # []"
    by (simp add: sample_world_def)
  have h10: "response_ok 200" by (simp add: response_ok_def)
  have h12: "token_file sample_world = Some (0x180, sample_file)"
    by (simp add: sample_world_def)
  have h13: "owner_w 0x180" by (simp add: owner_w_def)
  have c: "clock sample_world (Suc (Suc (ticks sample_world))) = 1700000000000"
    "requests sample_world = []"
    by (simp_all add: sample_world_def)
  show ?thesis
    using C2_refresh_scenario[OF h1 h2 h3 h4 h5 h7 h9 h10 sample_body_data h12 h13]
      h1 h2 h3 h5(1) h7(1) h9 h10 sample_body_data h12 h13
    by (simp add: c)
qed

text \<open>
  C3. For every stored record whose access expiry is not more than the 60-second buffer
  after the current time, whose refresh token is not empty and whose refresh expiry has
  passed when the code compares it with the clock, and with no static token configured,
  \<open>getValidAccessToken\<close> fails with the refresh-token-expired error. The world afterwards
  differs only in the count of clock readings: no request was sent, and the record on
  disk is the same.
\<close>

theorem C3_refresh_token_expired:
  assumes "static_token w = None"
    and "stored_record w = Some r"
    and "access_token r \<noteq> []"
    and "expires_at r \<le> clock w (ticks w) + 60000"
    and "refresh_token r \<noteq> []"
    and "refresh_token_expires_at r < clock w (Suc (ticks w))"
  shows "getValidAccessToken w = (Inl RefreshTokenExpired, w\<lparr>ticks := Suc (Suc (ticks w))\<rparr>)
         \<and> requests (snd (getValidAccessToken w)) = requests w
         \<and> responses (snd (getValidAccessToken w)) = responses w
         \<and> token_dir (snd (getValidAccessToken w)) = token_dir w
         \<and> token_file (snd (getValidAccessToken w)) = token_file w
         \<and> stored_record (snd (getValidAccessToken w)) = Some r"
proof -
  have "getValidAccessToken w =
      (Inl RefreshTokenExpired, w\<lparr>ticks := Suc (Suc (ticks w))\<rparr>)"
    by (rule access_expired_refresh_expired[OF assms])
  then show ?thesis using assms(2) by simp
qed

theorem C3_refresh_token_expired_witness:
  "static_token (sample_world\<lparr>clock := \<lambda>n. 1702000000000\<rparr>) = None
   \<and> stored_record (sample_world\<lparr>clock := \<lambda>n. 1702000000000\<rparr>) = Some sample_tokens
   \<and> access_token sample_tokens \<noteq> []
   \<and> expires_at sample_tokens \<le> 1702000000000 + 60000
   \<and> refresh_token sample_tokens \<noteq> []
   \<and> refresh_token_expires_at sample_tokens < 1702000000000
   \<and> fst (getValidAccessToken (sample_world\<lparr>clock := \<lambda>n. 1702000000000\<rparr>)) =
       Inl RefreshTokenExpired
   \<and> requests (snd (getValidAccessToken (sample_world\<lparr>clock := \<lambda>n. 1702000000000\<rparr>))) = []"
proof -
  let ?w = "sample_world\<lparr>clock := \<lambda>n. 1702000000000\<rparr>"
  have h1: "static_token ?w = None" by (simp add: sample_static)
  have h2: "stored_record ?w = Some sample_tokens" by (simp add: sample_stored)
  have h3: "access_token sample_tokens \<noteq> []" by (simp add: sample_tokens_def)
  have h4: "expires_at sample_tokens \<le> clock ?w (ticks ?w) + 60000"
    by (simp add: sample_tokens_def)
  have h5: "refresh_token sample_tokens \<noteq> []" by (simp add: sample_tokens_def)
  have h6: "refresh_token_expires_at sample_tokens < clock ?w (Suc (ticks ?w))"
    by (simp add: sample_tokens_def)
  show ?thesis
    using C3_refresh_token_expired[OF h1 h2 h3 h4 h5 h6] h1 h2
    by (simp add: sample_tokens_def sample_world_def)
qed

text \<open>
  C4. Whenever a static access token is configured in the environment,
  \<open>getValidAccessToken\<close> returns exactly that string, whatever the credential directory
  \<open>d\<close> and file \<open>f\<close> on disk are: any two on-disk states give the same result. The world
  it returns is the world it was given, so no refresh call was made and nothing was
  written.
\<close>

theorem C4_static_token:
  assumes "static_token w = Some t"
  shows "getValidAccessToken (w\<lparr>token_dir := d, token_file := f\<rparr>) =
           (Inr t, w\<lparr>token_dir := d, token_file := f\<rparr>)
         \<and> fst (getValidAccessToken (w\<lparr>token_dir := d, token_file := f\<rparr>)) =
           fst (getValidAccessToken (w\<lparr>token_dir := d', token_file := f'\<rparr>))"
  using assms by (simp add: getValidAccessToken_def)

theorem C4_static_token_witness:
  "static_token (sample_world\<lparr>env_PINTEREST_ACCESS_TOKEN := Some ''pina_X''\<rparr>) = Some ''pina_X''
   \<and> getValidAccessToken
        (sample_world\<lparr>env_PINTEREST_ACCESS_TOKEN := Some ''pina_X'',
                       token_dir := NoEntry, token_file := None\<rparr>) =
       (Inr ''pina_X'',
        sample_world\<lparr>env_PINTEREST_ACCESS_TOKEN := Some ''pina_X'',
                       token_dir := NoEntry, token_file := None\<rparr>)"
proof -
  have h: "static_token (sample_world\<lparr>env_PINTEREST_ACCESS_TOKEN := Some ''pina_X''\<rparr>) =
      Some ''pina_X''"
    by (simp add: static_token_def)
  show ?thesis
    using h C4_static_token[OF h, where d = NoEntry and f = None] by simp
qed

text \<open>
  C5, as the code has it. A refresh expiry of 0 is not a sentinel for
  \<open>getValidAccessToken\<close>: it is compared with the clock like any other timestamp. For a
  record with an expired access token, a non-empty refresh token and refresh expiry 0,
  the call fails with the refresh-token-expired error, without a request to the token
  endpoint, whenever the clock reads a time after the epoch.
\<close>

theorem C5_zero_refresh_expiry:
  assumes "static_token w = None"
    and "stored_record w = Some r"
    and "access_token r \<noteq> []"
    and "expires_at r \<le> clock w (ticks w) + 60000"
    and "refresh_token r \<noteq> []"
    and "refresh_token_expires_at r = 0"
    and "0 < clock w (Suc (ticks w))"
  shows "getValidAccessToken w = (Inl RefreshTokenExpired, w\<lparr>ticks := Suc (Suc (ticks w))\<rparr>)
         \<and> requests (snd (getValidAccessToken w)) = requests w"
proof -
  have "getValidAccessToken w =
      (Inl RefreshTokenExpired, w\<lparr>ticks := Suc (Suc (ticks w))\<rparr>)"
    by (rule access_expired_refresh_expired[OF assms(1-5)]) (use assms(6,7) in simp)
  then show ?thesis by simp
qed

theorem C5_zero_refresh_expiry_witness:
  "static_token zero_world = None
   \<and> stored_record zero_world = Some (sample_tokens\<lparr>refresh_token_expires_at := 0\<rparr>)
   \<and> access_token (sample_tokens\<lparr>refresh_token_expires_at := 0\<rparr>) \<noteq> []
   \<and> expires_at (sample_tokens\<lparr>refresh_token_expires_at := 0\<rparr>)
        \<le> clock zero_world (ticks zero_world) + 60000
   \<and> refresh_token (sample_tokens\<lparr>refresh_token_expires_at := 0\<rparr>) \<noteq> []
   \<and> refresh_token_expires_at (sample_tokens\<lparr>refresh_token_expires_at := 0\<rparr>) = 0
   \<and> 0 < clock zero_world (Suc (ticks zero_world))
   \<and> getValidAccessToken zero_world =
       (Inl RefreshTokenExpired, zero_world\<lparr>ticks := Suc (Suc (ticks zero_world))\<rparr>)"
proof -
  let ?r = "sample_tokens\<lparr>refresh_token_expires_at := 0\<rparr>"
  have h1: "static_token zero_world = None"
    by (simp add: zero_world_def sample_static)
  have h3: "access_token ?r \<noteq> []" by (simp add: sample_tokens_def)
  have h4: "expires_at ?r \<le> clock zero_world (ticks zero_world) + 60000"
    by (simp add: sample_tokens_def zero_world_def sample_world_def)
  have h5: "refresh_token ?r \<noteq> []" by (simp add: sample_tokens_def)
  have h6: "refresh_token_expires_at ?r = 0" by simp
  have h7: "0 < clock zero_world (Suc (ticks zero_world))"
    by (simp add: zero_world_def sample_world_def)
  show ?thesis
    using C5_zero_refresh_expiry[OF h1 zero_stored h3 h4 h5 h6 h7] h1 zero_stored h3 h4 h5 h7
    by simp
qed

text \<open>
  C5 as stated fails. In \<open>zero_world\<close> no static token is configured, the record on disk
  has the non-empty refresh token \<open>"R"\<close> and refresh expiry 0, its access token expired
  one second before the clock's reading, and \<open>getValidAccessToken\<close> fails with the
  refresh-token-expired error.
\<close>

theorem C5_counterexample:
  "static_token zero_world = None
   \<and> stored_record zero_world =
       Some \<lparr>access_token = ''A'', refresh_token = ''R'', expires_at = 1699999999000,
             refresh_token_expires_at = 0, scope = ''pins:read''\<rparr>
   \<and> clock zero_world (ticks zero_world) = 1700000000000
   \<and> fst (getValidAccessToken zero_world) = Inl RefreshTokenExpired"
proof -
  have h: "static_token zero_world = None"
    by (simp add: zero_world_def sample_static)
  have c: "clock zero_world (ticks zero_world) = 1700000000000"
    "clock zero_world (Suc (ticks zero_world)) = 1700000000000"
    by (simp_all add: zero_world_def sample_world_def)
  have g: "getValidAccessToken zero_world =
      (Inl RefreshTokenExpired, zero_world\<lparr>ticks := Suc (Suc (ticks zero_world))\<rparr>)"
    by (rule access_expired_refresh_expired[OF h zero_stored])
       (simp_all add: c sample_tokens_def)
  have s: "stored_record zero_world =
       Some \<lparr>access_token = ''A'', refresh_token = ''R'', expires_at = 1699999999000,
             refresh_token_expires_at = 0, scope = ''pins:read''\<rparr>"
    using zero_stored by (simp add: sample_tokens_def)
  show ?thesis
    using g h s c by simp
qed

text \<open>
  C6, as the code has it. Round trip. With no static token configured, for every record
  \<open>t\<close> with a non-empty access token whose two expiries are finite numbers: when
  \<open>saveTokens t\<close> succeeds and the process can read the file it wrote, \<open>loadTokens\<close>
  leaves the world as it is and returns a value that is field for field the record \<open>t\<close>,
  and the record on disk is \<open>t\<close>.
\<close>

theorem C6_round_trip:
  assumes "static_token w = None"
    and "access_token t \<noteq> []"
    and "isFinite (expires_at t)"
    and "isFinite (refresh_token_expires_at t)"
    and "saveTokens t w = (Inr (), w')"
    and "readable w'"
  shows "(\<exists>j. loadTokens w' = (Some j, w') \<and> field_for_field t j)
         \<and> map_option finite_tokens (stored_record w') = Some t"
proof -
  obtain t0 where t0: "t = finite_tokens t0"
    using finite_tokensI[OF assms(3,4)] by blast
  from saveTokens_success[OF assms(5)] obtain dm fm where
    d: "token_dir w' = Directory dm" "owner_x dm"
    and f: "token_file w' = Some (fm, JSON_stringify t)"
    and s: "static_token w' = None"
    using assms(1) by auto
  from assms(6) d f have r: "owner_r fm"
    by (simp add: readable_def fs_readFileSync_def split: if_splits)
  have rd: "fs_readFileSync w' = Inr (JSON_stringify t)"
    using d f r by (simp add: fs_readFileSync_def)
  have "loadTokens w' = (Some (parsed_tokens t), w')"
    using s rd assms(2)
    by (simp add: loadTokens_def loadTokens_try_def JSON_parse_stringify parsed_tokens_def
        own_prop_def)
  moreover have "field_for_field t (parsed_tokens t)"
    by (simp add: field_for_field_def t0 as_StoredTokens_parsed_tokens)
  moreover have "stored_record w' = Some t0"
    by (rule stored_record_written[OF d f[unfolded t0] r])
  ultimately show ?thesis by (auto simp add: t0)
qed

theorem C6_round_trip_witness:
  "static_token fresh_world = None
   \<and> access_token (finite_tokens sample_tokens) \<noteq> []
   \<and> isFinite (expires_at (finite_tokens sample_tokens))
   \<and> isFinite (refresh_token_expires_at (finite_tokens sample_tokens))
   \<and> saveTokens (finite_tokens sample_tokens) fresh_world = (Inr (), saved_world)
   \<and> readable saved_world
   \<and> (\<exists>j. loadTokens saved_world = (Some j, saved_world)
          \<and> field_for_field (finite_tokens sample_tokens) j)
   \<and> stored_record saved_world = Some sample_tokens"
proof -
  have h1: "static_token fresh_world = None"
    by (simp add: fresh_world_def sample_static)
  have h2: "access_token (finite_tokens sample_tokens) \<noteq> []"
    by (simp add: finite_tokens_def sample_tokens_def)
  have h3: "isFinite (expires_at (finite_tokens sample_tokens))"
    "isFinite (refresh_token_expires_at (finite_tokens sample_tokens))"
    by (simp_all add: finite_tokens_def)
  have h6: "readable saved_world"
    by (simp add: readable_def fs_readFileSync_def saved_world_def owner_x_def owner_r_def)
  have inj: "map_option finite_tokens x = Some (finite_tokens sample_tokens)
      \<Longrightarrow> x = Some sample_tokens" for x
    by (cases x) (auto dest: finite_tokens_inj)
  show ?thesis
    using C6_round_trip[OF h1 h2 h3 saveTokens_fresh h6] h1 h2 h3 saveTokens_fresh h6
    by (simp add: inj)
qed

text \<open>
  C6 as stated fails. \<open>nan_tokens\<close> has a non-empty access token and the access expiry
  \<^verbatim>\<open>NaN\<close>. In \<open>fresh_world\<close> no static token is configured; the save succeeds and the
  file can be read; \<^verbatim>\<open>JSON.stringify\<close> has written \<^verbatim>\<open>null\<close> for the expiry, so
  \<open>loadTokens\<close> returns an object whose \<open>expires_at\<close> is \<^verbatim>\<open>null\<close>, which is not field for
  field the record saved, and what is on disk is not a credential record.
\<close>

theorem C6_counterexample:
  "static_token fresh_world = None
   \<and> access_token nan_tokens \<noteq> []
   \<and> expires_at nan_tokens = NaN
   \<and> fst (saveTokens nan_tokens fresh_world) = Inr ()
   \<and> readable (snd (saveTokens nan_tokens fresh_world))
   \<and> fst (loadTokens (snd (saveTokens nan_tokens fresh_world))) =
       Some (JObj [(''access_token'', JStr ''A''), (''refresh_token'', JStr ''R''),
                   (''expires_at'', JNull),
                   (''refresh_token_expires_at'', JNum 1701000000000 0),
                   (''scope'', JStr ''pins:read'')])
   \<and> \<not> field_for_field nan_tokens
          (JObj [(''access_token'', JStr ''A''), (''refresh_token'', JStr ''R''),
                 (''expires_at'', JNull),
                 (''refresh_token_expires_at'', JNum 1701000000000 0),
                 (''scope'', JStr ''pins:read'')])
   \<and> stored_record (snd (saveTokens nan_tokens fresh_world)) = None"
proof -
  let ?w = "fresh_world\<lparr>token_dir := Directory 0x1ED,
                  token_file := Some (0x180, JSON_stringify nan_tokens),
                  stderr := [''[auth] Tokens saved to ~/.mcp-credentials/pinterest-tokens.json'']\<rparr>"
  have sv: "saveTokens nan_tokens fresh_world = (Inr (), ?w)"
    by (simp add: saveTokens_def fs_existsSync_def fs_mkdirSync_def fs_writeFileSync_def
        console_error_def fresh_world_def sample_world_def owner_x_def owner_w_def
        getTokenPath_def getTokenDir_def)
  have st: "static_token ?w = None"
    by (simp add: fresh_world_def sample_static)
  have rd: "fs_readFileSync ?w = Inr (JSON_stringify nan_tokens)"
    by (simp add: fs_readFileSync_def owner_x_def owner_r_def)
  have p: "parsed_tokens nan_tokens =
      JObj [(''access_token'', JStr ''A''), (''refresh_token'', JStr ''R''),
            (''expires_at'', JNull),
            (''refresh_token_expires_at'', JNum 1701000000000 0),
            (''scope'', JStr ''pins:read'')]"
    by (simp add: parsed_tokens_def nan_tokens_def)
  have v: "as_StoredTokens (parsed_tokens nan_tokens) = None"
    by (rule as_StoredTokens_not_finite) (simp add: nan_tokens_def)
  have l: "loadTokens ?w = (Some (parsed_tokens nan_tokens), ?w)"
    using st rd
    by (simp add: loadTokens_def loadTokens_try_def JSON_parse_stringify)
       (simp add: parsed_tokens_def nan_tokens_def own_prop_def)
  have f: "\<not> field_for_field nan_tokens (parsed_tokens nan_tokens)"
    by (simp add: field_for_field_def v)
  have s: "stored_record ?w = None"
    using rd by (simp add: stored_record_def JSON_parse_stringify v)
  have h: "static_token fresh_world = None"
    by (simp add: fresh_world_def sample_static)
  have r: "readable ?w"
    by (simp add: readable_def fs_readFileSync_def owner_x_def owner_r_def)
  have a: "access_token nan_tokens \<noteq> []" "expires_at nan_tokens = NaN"
    by (simp_all add: nan_tokens_def)
  show ?thesis
    unfolding sv using h a r l f s by (simp add: p)
qed

text \<open>
  C7. With no static token configured, \<open>loadTokens\<close> never raises: every exception of
  its \<^verbatim>\<open>try\<close> block ends as \<open>None\<close> (absent), and the world is left as it is. It returns
  \<open>None\<close> when the file cannot be read (the directory or the file is missing, or the file
  is not readable), when the content is not JSON, and when the parsed value has no
  \<open>access_token\<close> or an empty one. When the parsed value has a non-empty string as
  \<open>access_token\<close>, it is returned as it was parsed.
\<close>

theorem C7_load_absent:
  assumes "static_token w = None"
  shows "(\<forall>e. loadTokens_try w = Inl e \<longrightarrow> loadTokens w = (None, w))
         \<and> (\<forall>e. fs_readFileSync w = Inl e \<longrightarrow> loadTokens w = (None, w))
         \<and> (token_dir w = NoEntry \<or> token_file w = None
              \<or> (\<exists>fm data. token_file w = Some (fm, data) \<and> \<not> owner_r fm)
              \<longrightarrow> loadTokens w = (None, w))
         \<and> (\<forall>data. fs_readFileSync w = Inr data \<and> JSON_parse data = None
              \<longrightarrow> loadTokens w = (None, w))
         \<and> (\<forall>data parsed. fs_readFileSync w = Inr data \<and> JSON_parse data = Some parsed
              \<and> (get_prop parsed ''access_token'' = Inr None
                  \<or> get_prop parsed ''access_token'' = Inr (Some (JStr [])))
              \<longrightarrow> loadTokens w = (None, w))
         \<and> (\<forall>data parsed s. fs_readFileSync w = Inr data \<and> JSON_parse data = Some parsed
              \<and> get_prop parsed ''access_token'' = Inr (Some (JStr s)) \<and> s \<noteq> []
              \<longrightarrow> loadTokens w = (Some parsed, w))"
proof (intro conjI allI impI)
  fix e assume "loadTokens_try w = Inl e"
  then show "loadTokens w = (None, w)"
    using assms by (simp add: loadTokens_def)
next
  fix e assume "fs_readFileSync w = Inl e"
  then show "loadTokens w = (None, w)"
    using assms by (simp add: loadTokens_def loadTokens_try_def)
next
  assume "token_dir w = NoEntry \<or> token_file w = None
     \<or> (\<exists>fm data. token_file w = Some (fm, data) \<and> \<not> owner_r fm)"
  then have "\<exists>e. fs_readFileSync w = Inl e"
    by (auto simp add: fs_readFileSync_def split: dir_entry.splits)
  then show "loadTokens w = (None, w)"
    using assms by (auto simp add: loadTokens_def loadTokens_try_def)
next
  fix data assume "fs_readFileSync w = Inr data \<and> JSON_parse data = None"
  then show "loadTokens w = (None, w)"
    using assms by (simp add: loadTokens_def loadTokens_try_def)
next
  fix data parsed
  assume "fs_readFileSync w = Inr data \<and> JSON_parse data = Some parsed
     \<and> (get_prop parsed ''access_token'' = Inr None
         \<or> get_prop parsed ''access_token'' = Inr (Some (JStr [])))"
  then show "loadTokens w = (None, w)"
    using assms by (auto simp add: loadTokens_def loadTokens_try_def)
next
  fix data parsed s
  assume "fs_readFileSync w = Inr data \<and> JSON_parse data = Some parsed
     \<and> get_prop parsed ''access_token'' = Inr (Some (JStr s)) \<and> s \<noteq> []"
  then show "loadTokens w = (Some parsed, w)"
    using assms by (simp add: loadTokens_def loadTokens_try_def)
qed

text \<open>
  The cases of C7 in the sample world: no file; a file without the owner's read bit;
  a text that is not JSON; the JSON value \<^verbatim>\<open>null\<close>, on which the property read throws;
  an object without \<open>access_token\<close>; an object with an empty one; and the sample file.
\<close>

theorem C7_load_absent_witness:
  "(\<forall>f. static_token (file_world f) = None)
   \<and> loadTokens (file_world None) = (None, file_world None)
   \<and> loadTokens (file_world (Some (0x080, sample_file))) =
       (None, file_world (Some (0x080, sample_file)))
   \<and> loadTokens (file_world (Some (0x180, ''{\"access_token\":''))) =
       (None, file_world (Some (0x180, ''{\"access_token\":'')))
   \<and> loadTokens (file_world (Some (0x180, ''null''))) =
       (None, file_world (Some (0x180, ''null'')))
   \<and> loadTokens (file_world (Some (0x180, ''{\"refresh_token\":\"R\"}''))) =
       (None, file_world (Some (0x180, ''{\"refresh_token\":\"R\"}'')))
   \<and> loadTokens (file_world (Some (0x180, ''{\"access_token\":\"\",\"refresh_token\":\"R\"}''))) =
       (None, file_world (Some (0x180, ''{\"access_token\":\"\",\"refresh_token\":\"R\"}'')))
   \<and> loadTokens (file_world (Some (0x180, sample_file))) =
       (Some (json_of_tokens sample_tokens), file_world (Some (0x180, sample_file)))"
proof -
  note s = file_world_static
  have a: "loadTokens (file_world None) = (None, file_world None)"
    using C7_load_absent[OF s[of None]] file_world_read(1) by blast
  have b: "loadTokens (file_world (Some (0x080, sample_file))) =
       (None, file_world (Some (0x080, sample_file)))"
    using C7_load_absent[OF s[of "Some (0x080, sample_file)"]] file_world_read(2) by blast
  have c: "loadTokens (file_world (Some (0x180, ''{\"access_token\":''))) =
       (None, file_world (Some (0x180, ''{\"access_token\":'')))"
    using C7_load_absent[OF s[of "Some (0x180, ''{\"access_token\":'')"]]
      file_world_read(3) malformed_parse by blast
  have d: "loadTokens (file_world (Some (0x180, ''null''))) =
       (None, file_world (Some (0x180, ''null'')))"
    using C7_load_absent[OF s[of "Some (0x180, ''null'')"]]
      file_world_read(3)[of "''null''"] null_parse
    by (simp add: loadTokens_try_def)
  have e: "loadTokens (file_world (Some (0x180, ''{\"refresh_token\":\"R\"}''))) =
       (None, file_world (Some (0x180, ''{\"refresh_token\":\"R\"}'')))"
    using C7_load_absent[OF s[of "Some (0x180, ''{\"refresh_token\":\"R\"}'')"]]
      file_world_read(3)[of "''{\"refresh_token\":\"R\"}''"] no_token_parse
    by (simp add: own_prop_def)
  have f: "loadTokens (file_world (Some (0x180, ''{\"access_token\":\"\",\"refresh_token\":\"R\"}''))) =
       (None, file_world (Some (0x180, ''{\"access_token\":\"\",\"refresh_token\":\"R\"}'')))"
    using C7_load_absent[OF s[of "Some (0x180, ''{\"access_token\":\"\",\"refresh_token\":\"R\"}'')"]]
      file_world_read(3)[of "''{\"access_token\":\"\",\"refresh_token\":\"R\"}''"] empty_token_parse
    by (simp add: own_prop_def)
  have g: "loadTokens (file_world (Some (0x180, sample_file))) =
       (Some (json_of_tokens sample_tokens), file_world (Some (0x180, sample_file)))"
    using C7_load_absent[OF s[of "Some (0x180, sample_file)"]]
      file_world_read(3)[of sample_file] sample_file_parse
    by (simp add: json_of_tokens_def own_prop_def sample_tokens_def)
  show ?thesis
    using a b c d e f g s by simp
qed

text \<open>
  C8, as the code has it. On every save that succeeds: a credential directory that was
  missing is created with mode 0o777 less the bits of the process umask (the code asks
  for no mode of its own), and one that was there is left as it is; a credential file
  that the save creates gets mode 0o600 less the bits of the umask, which under every
  umask has no bit for the group or for others.
\<close>

theorem C8_save_modes:
  assumes "saveTokens t w = (Inr (), w')"
  shows "(token_dir w = NoEntry \<longrightarrow> token_dir w' = Directory (0x1FF AND NOT (umask w)))
         \<and> (token_dir w \<noteq> NoEntry \<longrightarrow> token_dir w' = token_dir w)
         \<and> (token_dir w = NoEntry \<or> token_file w = None \<longrightarrow>
              token_file w' = Some (0x180 AND NOT (umask w), JSON_stringify t))
         \<and> owner_only (0x180 AND NOT (umask w))"
  using assms owner_only_masked[of "umask w"]
  by (auto simp add: saveTokens_def fs_existsSync_def fs_mkdirSync_def fs_writeFileSync_def
      console_error_def
      split: if_splits sum.splits dir_entry.splits option.splits)

theorem C8_save_modes_witness:
  "saveTokens (finite_tokens sample_tokens) fresh_world = (Inr (), saved_world)
   \<and> token_dir fresh_world = NoEntry
   \<and> umask fresh_world = 0x12
   \<and> token_dir saved_world = Directory 0x1ED
   \<and> token_file saved_world = Some (0x180, JSON_stringify (finite_tokens sample_tokens))
   \<and> owner_only 0x180
   \<and> token_dir sample_world \<noteq> NoEntry
   \<and> token_dir (snd (saveTokens (finite_tokens sample_tokens) sample_world)) =
       token_dir sample_world"
proof -
  have h: "token_dir fresh_world = NoEntry" "umask fresh_world = 0x12"
    by (simp_all add: fresh_world_def sample_world_def)
  have k: "token_dir sample_world \<noteq> NoEntry"
    by (simp add: sample_world_def)
  show ?thesis
    using C8_save_modes[OF saveTokens_fresh] C8_save_modes[OF saveTokens_sample] h k
      saveTokens_fresh
    by (simp add: saved_world_def saveTokens_sample)
qed

text \<open>
  C8 as stated fails. In \<open>fresh_world\<close> the credential directory is missing and the umask
  is 0o022; the save succeeds and creates the directory with mode 0o755, which gives the
  group and others read and search access.
\<close>

theorem C8_counterexample:
  "token_dir fresh_world = NoEntry
   \<and> umask fresh_world = 0x12
   \<and> fst (saveTokens (finite_tokens sample_tokens) fresh_world) = Inr ()
   \<and> token_dir (snd (saveTokens (finite_tokens sample_tokens) fresh_world)) = Directory 0x1ED
   \<and> \<not> owner_only 0x1ED"
  by (simp add: saveTokens_fresh)
     (simp add: fresh_world_def saved_world_def sample_world_def owner_only_def)

text \<open>
  C9, as the code has it. In every run of the handshake the events of the run are added
  to the trace in order, every launch of the browser comes after the call of
  \<^verbatim>\<open>server.listen\<close>, and the listener never becomes ready after a launch. In every run
  in which the callback port can be bound, the listener is ready to accept connections
  when the browser is launched.
\<close>

theorem C9_listen_before_launch:
  "events (snd (startOAuthFlow w)) = events w @ run_events w
   \<and> launched_after_listen False (run_events w)
   \<and> no_ready_after_launch False (run_events w)
   \<and> (port_free w \<longrightarrow> launched_when_ready False (run_events w))"
proof -
  obtain tr where tr: "events (snd (startOAuthFlow w)) = events w @ tr"
    "launched_after_listen False tr" "no_ready_after_launch False tr"
    "port_free w \<longrightarrow> launched_when_ready False tr"
    using startOAuthFlow_trace[of w] by blast
  then have "run_events w = tr" by (simp add: run_events_def)
  then show ?thesis using tr by simp
qed

text \<open>
  In \<open>handshake_world\<close> the port is free and the handshake goes through: the listener is
  asked for and ready, the browser is launched at the authorization URL, the stray
  request is answered with 404 and the redirect with 200, and the listener is closed.
\<close>

theorem C9_listen_before_launch_witness:
  "port_free handshake_world
   \<and> fst (startOAuthFlow handshake_world) = Inr ''Successfully authenticated with Pinterest!''
   \<and> run_events handshake_world =
       [ListenRequested 3333, ListenerReady 3333,
        BrowserLaunched
          (''https://www.pinterest.com/oauth/?consumer_id=app'' @
           ''&redirect_uri=http%3A%2F%2Flocalhost%3A3333%2Fcallback'' @
           ''&response_type=code&refreshable=true'' @
           ''&scope=boards%3Aread%2Cboards%3Awrite%2Cpins%3Aread%2Cpins%3Awrite'' @
           ''%2Cuser_accounts%3Aread&state=8d8ac610-566d-4ef0-9c22-186b2a5ed793''),
        HttpReply 404, HttpReply 200, ListenerClosed]
   \<and> launched_after_listen False (run_events handshake_world)
   \<and> no_ready_after_launch False (run_events handshake_world)
   \<and> launched_when_ready False (run_events handshake_world)"
proof -
  have p: "port_free handshake_world"
    by (simp add: handshake_world_def fresh_world_def sample_world_def)
  have e: "events handshake_world = []"
    by (simp add: handshake_world_def fresh_world_def sample_world_def)
  show ?thesis
    using C9_listen_before_launch[of handshake_world] p handshake_run
    by (simp add: e authUrl_sample)
qed

text \<open>
  C9 as stated fails. In \<open>busy_world\<close> the callback port is in use: \<^verbatim>\<open>server.listen\<close> is
  called, the bind fails, the browser is launched all the same, and the handshake ends
  with the error of the callback server when the promise is awaited. The browser was
  launched while no listener was ready.
\<close>

theorem C9_counterexample:
  "\<not> port_free busy_world
   \<and> browser_opens busy_world
   \<and> run_events busy_world =
       [ListenRequested 3333,
        BrowserLaunched
          (''https://www.pinterest.com/oauth/?consumer_id=app'' @
           ''&redirect_uri=http%3A%2F%2Flocalhost%3A3333%2Fcallback'' @
           ''&response_type=code&refreshable=true'' @
           ''&scope=boards%3Aread%2Cboards%3Awrite%2Cpins%3Aread%2Cpins%3Awrite'' @
           ''%2Cuser_accounts%3Aread&state=8d8ac610-566d-4ef0-9c22-186b2a5ed793'')]
   \<and> \<not> launched_when_ready False (run_events busy_world)
   \<and> fst (startOAuthFlow busy_world) = Inl CallbackServerFailed"
  using busy_run
  by (simp add: run_events_def authUrl_sample)
     (simp add: busy_world_def handshake_world_def fresh_world_def sample_world_def)



end
